theory Spec2Isabelle
  imports Complex_Main "HOL-Library.Word" "HOL-Library.AList"
begin

unbundle bit_operations_syntax

section \<open>Python values and exceptions\<close>

text \<open>
  The arguments of the two classes are dynamically typed. A value is \<open>None\<close>, a
  \<open>bool\<close>, an \<open>int\<close>, a \<open>str\<close>, or any other object, which the code only ever
  observes through its truth value and its \<open>str()\<close>; \<open>PyObj t s\<close> carries these two.
  A \<open>str\<close> is represented by its UTF-8 bytes, so that \<open>item.encode('utf-8')\<close> is the
  identity on the representation and the empty string is the empty list.
\<close>

datatype pyval = PyNone | PyBool bool | PyInt int | PyStr string | PyObj bool string

datatype error = ValueError | TypeError | ZeroDivisionError | IndexError | AttributeError
  | OverflowError | MemoryError

fun truthy :: "pyval \<Rightarrow> bool" where
  "truthy PyNone = False"
| "truthy (PyBool b) = b"
| "truthy (PyInt i) = (i \<noteq> 0)"
| "truthy (PyStr s) = (s \<noteq> [])"
| "truthy (PyObj t s) = t"

fun isinstance_str :: "pyval \<Rightarrow> bool" where
  "isinstance_str (PyStr s) = True"
| "isinstance_str v = False"

text \<open>\<open>bool\<close> is a subclass of \<open>int\<close>: \<open>isinstance(True, int)\<close> holds and \<open>True == 1\<close>.\<close>

fun isinstance_int :: "pyval \<Rightarrow> bool" where
  "isinstance_int (PyInt i) = True"
| "isinstance_int (PyBool b) = True"
| "isinstance_int v = False"

fun int_val :: "pyval \<Rightarrow> int" where
  "int_val (PyInt i) = i"
| "int_val (PyBool b) = (if b then 1 else 0)"
| "int_val v = 0"

text \<open>The decimal digit of a number below ten.\<close>

definition digit_char :: "nat \<Rightarrow> char" where
  "digit_char n = ''0123456789'' ! n"

function str_nat :: "nat \<Rightarrow> string" where
  "str_nat n = (if n < 10 then [digit_char n] else str_nat (n div 10) @ [digit_char (n mod 10)])"
  by pat_completeness auto
termination
  by (relation "measure id") auto

declare str_nat.simps [simp del]

text \<open>The builtin \<open>str()\<close>.\<close>

fun py_str :: "pyval \<Rightarrow> string" where
  "py_str PyNone = ''None''"
| "py_str (PyBool b) = (if b then ''True'' else ''False'')"
| "py_str (PyInt i) = (if i < 0 then CHR ''-'' # str_nat (nat (- i)) else str_nat (nat i))"
| "py_str (PyStr s) = s"
| "py_str (PyObj t s) = s"

definition encode_utf8 :: "string \<Rightarrow> string" where
  "encode_utf8 s = s"

text \<open>\<open>a % b\<close> on integers: floored, as \<open>mod\<close> on \<open>int\<close>; raises on a zero divisor.\<close>

definition py_mod :: "int \<Rightarrow> int \<Rightarrow> error + int" where
  "py_mod a b = (if b = 0 then Inl ZeroDivisionError else Inr (a mod b))"

text \<open>
  A list subscript \<open>xs[i]\<close>: positions \<open>0 .. len - 1\<close> are read directly, positions
  \<open>-len .. -1\<close> count from the end, and every other position raises \<open>IndexError\<close>.
\<close>

definition py_index :: "nat \<Rightarrow> int \<Rightarrow> error + nat" where
  "py_index len i =
     (if 0 \<le> i \<and> i < int len then Inr (nat i)
      else if i < 0 \<and> - int len \<le> i then Inr (nat (int len + i))
      else Inl IndexError)"

definition py_getitem :: "'a list \<Rightarrow> int \<Rightarrow> error + 'a" where
  "py_getitem xs i = (case py_index (length xs) i of Inl e \<Rightarrow> Inl e | Inr k \<Rightarrow> Inr (xs ! k))"

definition py_setitem :: "'a list \<Rightarrow> int \<Rightarrow> 'a \<Rightarrow> error + 'a list" where
  "py_setitem xs i v = (case py_index (length xs) i of Inl e \<Rightarrow> Inl e | Inr k \<Rightarrow> Inr (xs[k := v]))"

text \<open>
  The list \<open>[0] * n\<close>. On 64-bit CPython a count that does not fit the index type
  (\<open>n \<ge> 2 ^ 63\<close>) raises \<open>OverflowError\<close>, and a list whose eight-byte slots would
  exceed the largest object size (\<open>n \<ge> 2 ^ 60\<close>) raises \<open>MemoryError\<close>. Below that the
  allocation succeeds when the machine has the memory, which the model takes for
  granted; no statement below concludes that a large instance can be built. A count
  that is not positive gives the empty list.
\<close>

definition py_list_repeat_zero :: "int \<Rightarrow> error + int list" where
  "py_list_repeat_zero n =
     (if 2 ^ 63 \<le> n then Inl OverflowError
      else if 2 ^ 60 \<le> n then Inl MemoryError
      else Inr (replicate (nat n) 0))"

text \<open>\<open>range(n)\<close>: empty for \<open>n \<le> 0\<close>.\<close>

definition py_range :: "int \<Rightarrow> nat list" where
  "py_range n = [0..<nat n]"

text \<open>\<open>a >> b\<close> on a non-negative shift count; a negative count raises \<open>ValueError\<close>.\<close>

definition py_rshift :: "int \<Rightarrow> int \<Rightarrow> error + int" where
  "py_rshift a b = (if b < 0 then Inl ValueError else Inr (drop_bit (nat b) a))"

text \<open>\<open>int.bit_length()\<close>: the number of binary digits of the absolute value.\<close>

fun bit_length_nat :: "nat \<Rightarrow> nat" where
  "bit_length_nat n = (if n = 0 then 0 else Suc (bit_length_nat (n div 2)))"

declare bit_length_nat.simps [simp del]

definition bit_length :: "int \<Rightarrow> int" where
  "bit_length w = int (bit_length_nat (nat \<bar>w\<bar>))"

section \<open>The hash of the \<open>mmh3\<close> package\<close>

text \<open>
  Both files call \<open>mmh3.hash(key, seed, signed=False)\<close> of the third-party package
  \<open>mmh3\<close>, which is MurmurHash3 (x86, 32 bit): the key is read in little-endian blocks
  of four bytes, the rest of one to three bytes is mixed in last, and the length is
  folded in before the final avalanche. The result is an unsigned 32-bit value. The
  general theorems below never look inside it; only evaluations at concrete inputs do.
\<close>

type_synonym u32 = "32 word"

definition rotl32 :: "u32 \<Rightarrow> nat \<Rightarrow> u32" where
  "rotl32 x r = (push_bit r x) OR (drop_bit (32 - r) x)"

definition mix_k :: "u32 \<Rightarrow> u32" where
  "mix_k k = rotl32 (k * 0xcc9e2d51) 15 * 0x1b873593"

definition byte :: "char \<Rightarrow> u32" where
  "byte c = word_of_nat (of_char c)"

fun mm_blocks :: "u32 \<Rightarrow> string \<Rightarrow> u32" where
  "mm_blocks h (a # b # c # d # rest) =
     mm_blocks (rotl32 (h XOR mix_k (byte a OR push_bit 8 (byte b) OR push_bit 16 (byte c)
                          OR push_bit 24 (byte d))) 13 * 5 + 0xe6546b64) rest"
| "mm_blocks h [a, b, c] = h XOR mix_k (byte a XOR push_bit 8 (byte b) XOR push_bit 16 (byte c))"
| "mm_blocks h [a, b] = h XOR mix_k (byte a XOR push_bit 8 (byte b))"
| "mm_blocks h [a] = h XOR mix_k (byte a)"
| "mm_blocks h [] = h"

definition fmix32 :: "u32 \<Rightarrow> u32" where
  "fmix32 h0 =
     (let h1 = (h0 XOR drop_bit 16 h0) * 0x85ebca6b;
          h2 = (h1 XOR drop_bit 13 h1) * 0xc2b2ae35
      in h2 XOR drop_bit 16 h2)"

definition mmh3_hash :: "string \<Rightarrow> u32 \<Rightarrow> u32" where
  "mmh3_hash data seed = fmix32 (mm_blocks seed data XOR word_of_nat (length data))"

section \<open>task-01: the Bloom filter\<close>

record BloomFilter =
  size_bf :: int
  num_hashes :: int
  bit_array :: "int list"

text \<open>
  \<open>BloomFilter.__init__\<close>: the guard raises \<open>ValueError\<close> unless both arguments are
  instances of \<open>int\<close> and positive; otherwise the bit array is \<open>[0] * size\<close>, whose
  allocation can fail.
\<close>

definition BloomFilter_init :: "pyval \<Rightarrow> pyval \<Rightarrow> error + BloomFilter" where
  "BloomFilter_init size_arg num_hashes_arg =
     (if \<not> (isinstance_int size_arg \<and> int_val size_arg > 0 \<and>
             isinstance_int num_hashes_arg \<and> int_val num_hashes_arg > 0)
      then Inl ValueError
      else case py_list_repeat_zero (int_val size_arg) of
             Inl e \<Rightarrow> Inl e
           | Inr bits \<Rightarrow> Inr \<lparr> size_bf = int_val size_arg,
                               num_hashes = int_val num_hashes_arg,
                               bit_array = bits \<rparr>)"

text \<open>The body of the loop of \<open>add\<close>, for the seeds that remain.\<close>

fun add_loop :: "BloomFilter \<Rightarrow> string \<Rightarrow> nat list \<Rightarrow> error + BloomFilter" where
  "add_loop bf data [] = Inr bf"
| "add_loop bf data (i # seeds) =
     (let hash_value = uint (mmh3_hash data (word_of_nat i))
      in case py_mod hash_value (size_bf bf) of
           Inl e \<Rightarrow> Inl e
         | Inr index \<Rightarrow>
             (case py_setitem (bit_array bf) index 1 of
                Inl e \<Rightarrow> Inl e
              | Inr bits \<Rightarrow> add_loop (bf\<lparr>bit_array := bits\<rparr>) data seeds))"

definition BloomFilter_add :: "BloomFilter \<Rightarrow> pyval \<Rightarrow> error + BloomFilter" where
  "BloomFilter_add bf item =
     (if \<not> truthy item \<or> \<not> isinstance_str item then Inr bf
      else case item of
             PyStr s \<Rightarrow> add_loop bf (encode_utf8 s) (py_range (num_hashes bf))
           | _ \<Rightarrow> Inl AttributeError)"

text \<open>The loop of \<open>contains\<close>: it returns \<open>False\<close> at the first bit that is 0.\<close>

fun contains_loop :: "BloomFilter \<Rightarrow> string \<Rightarrow> nat list \<Rightarrow> error + bool" where
  "contains_loop bf data [] = Inr True"
| "contains_loop bf data (i # seeds) =
     (let hash_value = uint (mmh3_hash data (word_of_nat i))
      in case py_mod hash_value (size_bf bf) of
           Inl e \<Rightarrow> Inl e
         | Inr index \<Rightarrow>
             (case py_getitem (bit_array bf) index of
                Inl e \<Rightarrow> Inl e
              | Inr b \<Rightarrow> if b = 0 then Inr False else contains_loop bf data seeds))"

definition BloomFilter_contains :: "BloomFilter \<Rightarrow> pyval \<Rightarrow> error + bool" where
  "BloomFilter_contains bf item =
     (if \<not> truthy item \<or> \<not> isinstance_str item then Inr False
      else case item of
             PyStr s \<Rightarrow> contains_loop bf (encode_utf8 s) (py_range (num_hashes bf))
           | _ \<Rightarrow> Inl AttributeError)"

text \<open>
  The three status strings of \<open>check_password_uniqueness\<close> are Ukrainian literals;
  each constructor stands for one of them: \<open>Invalid_or_empty\<close> for the status of an
  invalid or empty item, \<open>Already_used\<close> for a password that \<open>contains\<close> reports, and
  \<open>Unique\<close> for one that it does not.
\<close>

datatype status = Invalid_or_empty | Already_used | Unique

text \<open>
  The result is a \<open>dict\<close>, which keeps its keys in insertion order; assigning to a key
  that is present replaces the value where it stands. That is \<open>AList.update\<close> on an
  association list.
\<close>

type_synonym results = "(string \<times> status) list"

fun check_loop :: "BloomFilter \<Rightarrow> results \<Rightarrow> pyval list \<Rightarrow> error + results" where
  "check_loop bf results [] = Inr results"
| "check_loop bf results (password # rest) =
     (if \<not> truthy password \<or> \<not> isinstance_str password
      then check_loop bf (AList.update (py_str password) Invalid_or_empty results) rest
      else case BloomFilter_contains bf password of
             Inl e \<Rightarrow> Inl e
           | Inr True \<Rightarrow> check_loop bf (AList.update (py_str password) Already_used results) rest
           | Inr False \<Rightarrow> check_loop bf (AList.update (py_str password) Unique results) rest)"

definition check_password_uniqueness :: "BloomFilter \<Rightarrow> pyval list \<Rightarrow> error + results" where
  "check_password_uniqueness bloom_filter new_passwords = check_loop bloom_filter [] new_passwords"

text \<open>The loop \<open>for password in existing_passwords: bloom.add(password)\<close> of the script.\<close>

fun BloomFilter_add_all :: "BloomFilter \<Rightarrow> pyval list \<Rightarrow> error + BloomFilter" where
  "BloomFilter_add_all bf [] = Inr bf"
| "BloomFilter_add_all bf (item # items) =
     (case BloomFilter_add bf item of
        Inl e \<Rightarrow> Inl e
      | Inr bf' \<Rightarrow> BloomFilter_add_all bf' items)"

text \<open>An item that \<open>add\<close> and \<open>contains\<close> work on: a string that is not empty.\<close>

definition valid_item :: "pyval \<Rightarrow> bool" where
  "valid_item item = (case item of PyStr s \<Rightarrow> s \<noteq> [] | _ \<Rightarrow> False)"

section \<open>task-02: HyperLogLog\<close>

text \<open>
  The constant \<open>alpha\<close>, the threshold and the estimate are Python floats; they are
  modelled as real numbers, so rounding is left out. The registers and the hash are
  integers and are modelled exactly.
\<close>

record HyperLogLog =
  p_hll :: int
  m_hll :: int
  registers :: "int list"
  alpha :: real
  small_range_correction :: real

definition HyperLogLog_get_alpha :: "int \<Rightarrow> real" where
  "HyperLogLog_get_alpha m =
     (if m = 16 then 0.673
      else if m = 32 then 0.697
      else if m = 64 then 0.709
      else 0.7213 / (1 + 1.079 / real_of_int m))"

text \<open>
  \<open>HyperLogLog.__init__\<close> has no guard of its own. The shift \<open>1 << p\<close> raises
  \<open>TypeError\<close> for an operand that is not an \<open>int\<close> and \<open>ValueError\<close> for a negative
  shift count; for every other \<open>p\<close>, zero included, the register list \<open>[0] * m\<close> is
  allocated, which fails from \<open>p = 60\<close> on. (For a shift count so large that the shift
  itself cannot be served, the exception comes from the shift instead.)
\<close>

definition HyperLogLog_init :: "pyval \<Rightarrow> error + HyperLogLog" where
  "HyperLogLog_init p =
     (if \<not> isinstance_int p then Inl TypeError
      else if int_val p < 0 then Inl ValueError
      else let m = push_bit (nat (int_val p)) 1
           in case py_list_repeat_zero m of
                Inl e \<Rightarrow> Inl e
              | Inr regs \<Rightarrow> Inr \<lparr> p_hll = int_val p,
                                  m_hll = m,
                                  registers = regs,
                                  alpha = HyperLogLog_get_alpha m,
                                  small_range_correction = 5 * real_of_int m / 2 \<rparr>)"

definition HyperLogLog_rho :: "int \<Rightarrow> int" where
  "HyperLogLog_rho w = (if w = 0 then 32 else 32 - bit_length w + 1)"

text \<open>
  \<open>HyperLogLog.add\<close>: the item goes through \<open>str()\<close> and the hash with the fixed
  seed; the low \<open>p\<close> bits select the register, the other bits give the rank.
\<close>

definition HyperLogLog_add :: "HyperLogLog \<Rightarrow> pyval \<Rightarrow> error + HyperLogLog" where
  "HyperLogLog_add h item =
     (let x = uint (mmh3_hash (encode_utf8 (py_str item)) 0xDEADBEEF);
          j = x AND (m_hll h - 1)
      in case py_rshift x (p_hll h) of
           Inl e \<Rightarrow> Inl e
         | Inr w \<Rightarrow>
             (case py_getitem (registers h) j of
                Inl e \<Rightarrow> Inl e
              | Inr r \<Rightarrow>
                  (case py_setitem (registers h) j (max r (HyperLogLog_rho w)) of
                     Inl e \<Rightarrow> Inl e
                   | Inr regs \<Rightarrow> Inr (h\<lparr>registers := regs\<rparr>))))"

text \<open>\<open>math.log\<close> raises \<open>ValueError\<close> outside its domain.\<close>

definition math_log :: "real \<Rightarrow> error + real" where
  "math_log x = (if x \<le> 0 then Inl ValueError else Inr (ln x))"

text \<open>\<open>HyperLogLog.count\<close>; a float division by zero raises \<open>ZeroDivisionError\<close>.\<close>

definition HyperLogLog_count :: "HyperLogLog \<Rightarrow> error + real" where
  "HyperLogLog_count h =
     (let Z = sum_list (map (\<lambda>r. 2 powi (- r)) (registers h))
      in if Z = 0 then Inl ZeroDivisionError
         else let E = alpha h * real_of_int (m_hll h) * real_of_int (m_hll h) / Z
              in if E \<le> small_range_correction h
                 then (let V = count_list (registers h) 0
                       in if V > 0
                          then (case math_log (real_of_int (m_hll h) / real V) of
                                  Inl e \<Rightarrow> Inl e
                                | Inr l \<Rightarrow> Inr (real_of_int (m_hll h) * l))
                          else Inr E)
                 else Inr E)"

text \<open>The loop \<open>for item in data: hll.add(item)\<close> of \<open>count_hll\<close>.\<close>

fun HyperLogLog_add_all :: "HyperLogLog \<Rightarrow> pyval list \<Rightarrow> error + HyperLogLog" where
  "HyperLogLog_add_all h [] = Inr h"
| "HyperLogLog_add_all h (item # items) =
     (case HyperLogLog_add h item of
        Inl e \<Rightarrow> Inl e
      | Inr h' \<Rightarrow> HyperLogLog_add_all h' items)"

definition count_hll :: "pyval list \<Rightarrow> pyval \<Rightarrow> error + real" where
  "count_hll data p =
     (case HyperLogLog_init p of
        Inl e \<Rightarrow> Inl e
      | Inr hll \<Rightarrow>
          (case HyperLogLog_add_all hll data of
             Inl e \<Rightarrow> Inl e
           | Inr hll' \<Rightarrow> HyperLogLog_count hll'))"

section \<open>Sequences of operations\<close>

text \<open>
  The public operations of the two classes, run in sequence on one instance. The
  queries assign no attribute, so they hand the instance on as it is.
\<close>

datatype bloom_op = Op_add pyval | Op_contains pyval | Op_check "pyval list"

fun bloom_step :: "BloomFilter \<Rightarrow> bloom_op \<Rightarrow> error + BloomFilter" where
  "bloom_step bf (Op_add item) = BloomFilter_add bf item"
| "bloom_step bf (Op_contains item) =
     (case BloomFilter_contains bf item of Inl e \<Rightarrow> Inl e | Inr b \<Rightarrow> Inr bf)"
| "bloom_step bf (Op_check items) =
     (case check_password_uniqueness bf items of Inl e \<Rightarrow> Inl e | Inr r \<Rightarrow> Inr bf)"

fun bloom_run :: "BloomFilter \<Rightarrow> bloom_op list \<Rightarrow> error + BloomFilter" where
  "bloom_run bf [] = Inr bf"
| "bloom_run bf (op # ops) =
     (case bloom_step bf op of Inl e \<Rightarrow> Inl e | Inr bf' \<Rightarrow> bloom_run bf' ops)"

datatype hll_op = Op_hll_add pyval | Op_hll_count

fun hll_step :: "HyperLogLog \<Rightarrow> hll_op \<Rightarrow> error + HyperLogLog" where
  "hll_step h (Op_hll_add item) = HyperLogLog_add h item"
| "hll_step h Op_hll_count =
     (case HyperLogLog_count h of Inl e \<Rightarrow> Inl e | Inr c \<Rightarrow> Inr h)"

fun hll_run :: "HyperLogLog \<Rightarrow> hll_op list \<Rightarrow> error + HyperLogLog" where
  "hll_run h [] = Inr h"
| "hll_run h (op # ops) =
     (case hll_step h op of Inl e \<Rightarrow> Inl e | Inr h' \<Rightarrow> hll_run h' ops)"

section \<open>Predicates used in the statements\<close>

definition bit_index :: "int \<Rightarrow> string \<Rightarrow> nat \<Rightarrow> nat" where
  "bit_index sz data i = nat (uint (mmh3_hash data (word_of_nat i)) mod sz)"

definition set_bits :: "int \<Rightarrow> string \<Rightarrow> nat list \<Rightarrow> int list \<Rightarrow> int list" where
  "set_bits sz data seeds bits = foldl (\<lambda>b i. b[bit_index sz data i := 1]) bits seeds"

definition bf_ok :: "BloomFilter \<Rightarrow> bool" where
  "bf_ok bf = (0 < size_bf bf \<and> int (length (bit_array bf)) = size_bf bf)"

definition status_of :: "BloomFilter \<Rightarrow> pyval \<Rightarrow> status" where
  "status_of bf item =
     (if item = PyNone \<or> item = PyStr [] \<or> \<not> isinstance_str item then Invalid_or_empty
      else if BloomFilter_contains bf item = Inr True then Already_used
      else Unique)"

text \<open>
  What a call of add keeps: the parameters, the length, and every bit that is 1; the
  only value it writes is 1.
\<close>

definition bf_extends :: "BloomFilter \<Rightarrow> BloomFilter \<Rightarrow> bool" where
  "bf_extends bf bf' =
     (size_bf bf' = size_bf bf \<and> num_hashes bf' = num_hashes bf \<and>
      length (bit_array bf') = length (bit_array bf) \<and>
      set (bit_array bf') \<subseteq> insert 1 (set (bit_array bf)) \<and>
      (\<forall>k < length (bit_array bf). bit_array bf ! k = 1 \<longrightarrow> bit_array bf' ! k = 1))"

definition hll_ok :: "HyperLogLog \<Rightarrow> bool" where
  "hll_ok h = (0 \<le> p_hll h \<and> m_hll h = 2 ^ nat (p_hll h) \<and>
               length (registers h) = nat (m_hll h) \<and>
               small_range_correction h = 5 * real_of_int (m_hll h) / 2)"

definition hll_extends :: "HyperLogLog \<Rightarrow> HyperLogLog \<Rightarrow> bool" where
  "hll_extends h h' =
     (p_hll h' = p_hll h \<and> m_hll h' = m_hll h \<and> alpha h' = alpha h \<and>
      small_range_correction h' = small_range_correction h \<and>
      length (registers h') = length (registers h) \<and>
      (\<forall>k < length (registers h). registers h ! k \<le> registers h' ! k))"

definition count_spec :: "HyperLogLog \<Rightarrow> real" where
  "count_spec h =
     (let m = (2::real) ^ nat (p_hll h);
          Z = (\<Sum>i < (2::nat) ^ nat (p_hll h). 2 powr (- real_of_int (registers h ! i)));
          E = alpha h * m\<^sup>2 / Z;
          V = length (filter (\<lambda>r. r = 0) (registers h))
      in if E \<le> 2.5 * m \<and> V > 0 then m * ln (m / real V) else E)"

text \<open>
  A positive integer, as Python sees it: an \<open>int\<close> above zero, or \<open>True\<close>, which is the
  integer 1.
\<close>

definition positive_integer :: "pyval \<Rightarrow> bool" where
  "positive_integer v = (case v of PyInt i \<Rightarrow> 0 < i | PyBool b \<Rightarrow> b | _ \<Rightarrow> False)"

text \<open>
  The classification as the specification words it: one pair per item, in input
  order, of the key \<open>str(item)\<close> and the status of the item.
\<close>

definition classify :: "BloomFilter \<Rightarrow> pyval list \<Rightarrow> (string \<times> status) list" where
  "classify bf items = map (\<lambda>item. (py_str item, status_of bf item)) items"

section \<open>Invalid items of the Bloom filter\<close>

lemma invalid_item_guard: "\<not> valid_item item \<Longrightarrow> \<not> truthy item \<or> \<not> isinstance_str item"
  by (cases item) (simp_all add: valid_item_def)

text \<open>
  C9. For every item that is absent (\<open>None\<close>), empty, or not a string, \<open>add\<close> raises
  nothing and returns the filter as it was, and \<open>contains\<close> returns \<open>False\<close>, in every
  state of the filter.
\<close>

theorem invalid_item_ignored:
  "item = PyNone \<or> item = PyStr [] \<or> \<not> isinstance_str item \<Longrightarrow>
     BloomFilter_add bf item = Inr bf \<and> BloomFilter_contains bf item = Inr False"
  by (cases item) (auto simp: BloomFilter_add_def BloomFilter_contains_def)

theorem invalid_item_ignored_witness:
  "BloomFilter_add \<lparr>size_bf = 3, num_hashes = 2, bit_array = [0, 1, 0]\<rparr> PyNone
     = Inr \<lparr>size_bf = 3, num_hashes = 2, bit_array = [0, 1, 0]\<rparr>
   \<and> BloomFilter_contains \<lparr>size_bf = 3, num_hashes = 2, bit_array = [0, 1, 0]\<rparr> PyNone = Inr False"
  using invalid_item_ignored [of PyNone "\<lparr>size_bf = 3, num_hashes = 2, bit_array = [0, 1, 0]\<rparr>"]
  by simp

section \<open>The loops of the Bloom filter\<close>

lemma py_index_in_range: "0 \<le> i \<Longrightarrow> i < int n \<Longrightarrow> py_index n i = Inr (nat i)"
  by (simp add: py_index_def)

lemma length_set_bits: "length (set_bits sz data seeds bits) = length bits"
  unfolding set_bits_def by (induction seeds arbitrary: bits) simp_all

lemma set_bits_keeps_one:
  "k < length bits \<Longrightarrow> bits ! k = 1 \<Longrightarrow> set_bits sz data seeds bits ! k = 1"
  unfolding set_bits_def
proof (induction seeds arbitrary: bits)
  case Nil
  then show ?case by simp
next
  case (Cons i seeds)
  have "(bits[bit_index sz data i := 1]) ! k = 1"
    using Cons.prems by (cases "bit_index sz data i = k") simp_all
  with Cons show ?case by simp
qed

lemma set_bits_sets:
  "i \<in> set seeds \<Longrightarrow> bit_index sz data i < length bits \<Longrightarrow>
     set_bits sz data seeds bits ! bit_index sz data i = 1"
proof (induction seeds arbitrary: bits)
  case Nil
  then show ?case by simp
next
  case (Cons s seeds)
  show ?case
  proof (cases "i = s")
    case True
    have "set_bits sz data seeds (bits[bit_index sz data s := 1]) ! bit_index sz data s = 1"
      using Cons.prems(2) True by (intro set_bits_keeps_one) simp_all
    then show ?thesis using True by (simp add: set_bits_def)
  next
    case False
    then have "i \<in> set seeds" using Cons.prems by simp
    from Cons.IH [OF this, of "bits[bit_index sz data s := 1]"] Cons.prems(2)
    show ?thesis by (simp add: set_bits_def)
  qed
qed

lemma set_set_bits: "set (set_bits sz data seeds bits) \<subseteq> insert 1 (set bits)"
  unfolding set_bits_def
proof (induction seeds arbitrary: bits)
  case Nil
  then show ?case by auto
next
  case (Cons i seeds)
  have "set (bits[bit_index sz data i := 1]) \<subseteq> insert 1 (set bits)"
    by (rule set_update_subset_insert)
  with Cons.IH [of "bits[bit_index sz data i := 1]"] show ?case by auto
qed

lemma bit_index_less: "0 < sz \<Longrightarrow> int (length bits) = sz \<Longrightarrow> bit_index sz data i < length bits"
  unfolding bit_index_def by (simp add: nat_less_iff)

lemma add_loop_set_bits:
  "bf_ok bf \<Longrightarrow>
     add_loop bf data seeds = Inr (bf\<lparr>bit_array := set_bits (size_bf bf) data seeds (bit_array bf)\<rparr>)"
proof (induction seeds arbitrary: bf)
  case Nil
  then show ?case by (simp add: set_bits_def)
next
  case (Cons i seeds)
  let ?x = "uint (mmh3_hash data (word_of_nat i))"
  let ?bf = "bf\<lparr>bit_array := (bit_array bf)[bit_index (size_bf bf) data i := 1]\<rparr>"
  from Cons.prems have sz: "0 < size_bf bf" and len: "int (length (bit_array bf)) = size_bf bf"
    by (simp_all add: bf_ok_def)
  have m: "py_mod ?x (size_bf bf) = Inr (?x mod size_bf bf)"
    using sz by (simp add: py_mod_def)
  have "py_index (length (bit_array bf)) (?x mod size_bf bf) = Inr (nat (?x mod size_bf bf))"
    using sz len by (intro py_index_in_range) simp_all
  then have s: "py_setitem (bit_array bf) (?x mod size_bf bf) 1
      = Inr ((bit_array bf)[bit_index (size_bf bf) data i := 1])"
    by (simp add: py_setitem_def bit_index_def)
  have ok: "bf_ok ?bf" using sz len by (simp add: bf_ok_def)
  have "add_loop bf data (i # seeds) = add_loop ?bf data seeds"
    by (simp add: m s)
  also have "\<dots> = Inr (?bf\<lparr>bit_array := set_bits (size_bf ?bf) data seeds (bit_array ?bf)\<rparr>)"
    by (rule Cons.IH [OF ok])
  finally show ?case by (simp add: set_bits_def)
qed

lemma contains_loop_bits:
  "bf_ok bf \<Longrightarrow>
     contains_loop bf data seeds
       = Inr (\<forall>i \<in> set seeds. bit_array bf ! bit_index (size_bf bf) data i \<noteq> 0)"
proof (induction seeds)
  case Nil
  then show ?case by simp
next
  case (Cons i seeds)
  let ?x = "uint (mmh3_hash data (word_of_nat i))"
  from Cons.prems have sz: "0 < size_bf bf" and len: "int (length (bit_array bf)) = size_bf bf"
    by (simp_all add: bf_ok_def)
  have m: "py_mod ?x (size_bf bf) = Inr (?x mod size_bf bf)"
    using sz by (simp add: py_mod_def)
  have "py_index (length (bit_array bf)) (?x mod size_bf bf) = Inr (nat (?x mod size_bf bf))"
    using sz len by (intro py_index_in_range) simp_all
  then have g: "py_getitem (bit_array bf) (?x mod size_bf bf)
      = Inr (bit_array bf ! bit_index (size_bf bf) data i)"
    by (simp add: py_getitem_def bit_index_def)
  show ?case using Cons by (simp add: m g)
qed

lemma init_bf_ok: "BloomFilter_init M K = Inr bf \<Longrightarrow> bf_ok bf"
  by (auto simp: BloomFilter_init_def py_list_repeat_zero_def bf_ok_def
      split: if_splits sum.splits)

lemma add_valid:
  "bf_ok bf \<Longrightarrow> s \<noteq> [] \<Longrightarrow>
     BloomFilter_add bf (PyStr s)
       = Inr (bf\<lparr>bit_array := set_bits (size_bf bf) s (py_range (num_hashes bf)) (bit_array bf)\<rparr>)"
  by (simp add: BloomFilter_add_def encode_utf8_def add_loop_set_bits)

lemma contains_valid:
  "bf_ok bf \<Longrightarrow> s \<noteq> [] \<Longrightarrow>
     BloomFilter_contains bf (PyStr s)
       = Inr (\<forall>i \<in> set (py_range (num_hashes bf)). bit_array bf ! bit_index (size_bf bf) s i \<noteq> 0)"
  by (simp add: BloomFilter_contains_def encode_utf8_def contains_loop_bits)

lemma contains_total: "bf_ok bf \<Longrightarrow> \<exists>b. BloomFilter_contains bf item = Inr b"
proof (cases "valid_item item")
  case True
  then obtain s where "item = PyStr s" "s \<noteq> []"
    by (cases item) (simp_all add: valid_item_def)
  then show "bf_ok bf \<Longrightarrow> ?thesis" by (simp add: contains_valid)
next
  case False
  then have "\<not> truthy item \<or> \<not> isinstance_str item"
    by (rule invalid_item_guard)
  then show ?thesis unfolding BloomFilter_contains_def by auto
qed

lemma bf_extends_refl: "bf_extends bf bf"
  unfolding bf_extends_def by auto

lemma bf_extends_trans: "bf_extends a b \<Longrightarrow> bf_extends b c \<Longrightarrow> bf_extends a c"
  unfolding bf_extends_def by auto

lemma bf_extends_ok: "bf_ok bf \<Longrightarrow> bf_extends bf bf' \<Longrightarrow> bf_ok bf'"
  by (simp add: bf_extends_def bf_ok_def)

lemma add_extends:
  assumes "bf_ok bf"
  shows "\<exists>bf'. BloomFilter_add bf item = Inr bf' \<and> bf_extends bf bf'"
proof (cases "valid_item item")
  case True
  then obtain s where s: "item = PyStr s" "s \<noteq> []"
    by (cases item) (simp_all add: valid_item_def)
  show ?thesis
    using assms s
    by (simp add: add_valid bf_extends_def length_set_bits set_bits_keeps_one set_set_bits)
next
  case False
  then have "\<not> truthy item \<or> \<not> isinstance_str item"
    by (rule invalid_item_guard)
  then show ?thesis unfolding BloomFilter_add_def by (auto simp: bf_extends_refl)
qed

lemma check_loop_fold:
  "bf_ok bf \<Longrightarrow>
     check_loop bf acc items
       = Inr (foldl (\<lambda>r it. AList.update (py_str it) (status_of bf it) r) acc items)"
proof (induction items arbitrary: acc)
  case Nil
  then show ?case by simp
next
  case (Cons it items)
  show ?case
  proof (cases "\<not> truthy it \<or> \<not> isinstance_str it")
    case True
    then have "status_of bf it = Invalid_or_empty"
      by (cases it) (auto simp: status_of_def)
    with True Cons show ?thesis by simp
  next
    case False
    then have v: "\<not> (it = PyNone \<or> it = PyStr [] \<or> \<not> isinstance_str it)"
      by (cases it) auto
    from contains_total [OF Cons.prems] obtain b where b: "BloomFilter_contains bf it = Inr b"
      by blast
    show ?thesis
      using False v b Cons by (cases b) (simp_all add: status_of_def)
  qed
qed

lemma check_total: "bf_ok bf \<Longrightarrow> \<exists>r. check_password_uniqueness bf items = Inr r"
  by (simp add: check_password_uniqueness_def check_loop_fold)

lemma bloom_step_extends:
  assumes "bf_ok bf"
  shows "\<exists>bf'. bloom_step bf op = Inr bf' \<and> bf_extends bf bf'"
proof (cases op)
  case (Op_add item)
  then show ?thesis using add_extends [OF assms] by simp
next
  case (Op_contains item)
  then show ?thesis using contains_total [OF assms, of item] by (auto simp: bf_extends_refl)
next
  case (Op_check items)
  then show ?thesis using check_total [OF assms, of items] by (auto simp: bf_extends_refl)
qed

lemma bloom_run_extends:
  "bf_ok bf \<Longrightarrow> \<exists>bf'. bloom_run bf ops = Inr bf' \<and> bf_extends bf bf'"
proof (induction ops arbitrary: bf)
  case Nil
  then show ?case by (simp add: bf_extends_refl)
next
  case (Cons op ops)
  from bloom_step_extends [OF Cons.prems] obtain b1
    where b1: "bloom_step bf op = Inr b1" "bf_extends bf b1" by blast
  have "bf_ok b1" using Cons.prems b1(2) by (rule bf_extends_ok)
  from Cons.IH [OF this] obtain b2 where b2: "bloom_run b1 ops = Inr b2" "bf_extends b1 b2"
    by blast
  show ?case using b1 b2 by (auto intro: bf_extends_trans)
qed

lemma contains_after_add:
  assumes ok: "bf_ok bf" and s: "s \<noteq> []"
    and a: "BloomFilter_add bf (PyStr s) = Inr bf1" and e: "bf_extends bf1 bf2"
  shows "BloomFilter_contains bf2 (PyStr s) = Inr True"
proof -
  let ?seeds = "py_range (num_hashes bf)"
  have bf1: "bf1 = bf\<lparr>bit_array := set_bits (size_bf bf) s ?seeds (bit_array bf)\<rparr>"
    using a add_valid [OF ok s] by simp
  have ok1: "bf_ok bf1" using ok bf1 by (simp add: bf_ok_def length_set_bits)
  have ok2: "bf_ok bf2" using ok1 e by (rule bf_extends_ok)
  have sz: "size_bf bf2 = size_bf bf" "num_hashes bf2 = num_hashes bf"
    using e bf1 by (simp_all add: bf_extends_def)
  have "bit_array bf2 ! bit_index (size_bf bf) s i = 1" if "i \<in> set ?seeds" for i
  proof -
    have lt: "bit_index (size_bf bf) s i < length (bit_array bf)"
      using ok by (intro bit_index_less) (simp_all add: bf_ok_def)
    have "bit_array bf1 ! bit_index (size_bf bf) s i = 1"
      using that lt by (simp add: bf1 set_bits_sets)
    moreover have "bit_index (size_bf bf) s i < length (bit_array bf1)"
      using lt by (simp add: bf1 length_set_bits)
    ultimately show ?thesis using e by (simp add: bf_extends_def)
  qed
  then show ?thesis by (simp add: contains_valid [OF ok2 s] sz)
qed

section \<open>The registers of HyperLogLog\<close>

lemma init_hll_ok: "HyperLogLog_init p = Inr h \<Longrightarrow> hll_ok h"
  by (auto simp: HyperLogLog_init_def py_list_repeat_zero_def hll_ok_def Let_def push_bit_eq_mult
      split: if_splits sum.splits)

lemma hll_extends_refl: "hll_extends h h"
  by (simp add: hll_extends_def)

lemma hll_extends_trans: "hll_extends a b \<Longrightarrow> hll_extends b c \<Longrightarrow> hll_extends a c"
  by (fastforce simp: hll_extends_def)

lemma hll_extends_ok: "hll_ok h \<Longrightarrow> hll_extends h h' \<Longrightarrow> hll_ok h'"
  by (simp add: hll_extends_def hll_ok_def)

lemma register_index_range:
  assumes "0 < m"
  shows "0 \<le> uint (x :: u32) AND (m - 1)" and "uint x AND (m - 1) < m"
proof -
  show "0 \<le> uint x AND (m - 1)" by simp
  have "uint x AND (m - 1) \<le> m - 1"
    using assms by (intro AND_upper2) simp
  then show "uint x AND (m - 1) < m" by simp
qed

lemma add_hll_result:
  assumes "hll_ok h"
  shows "\<exists>j < length (registers h). \<exists>w.
           HyperLogLog_add h item
             = Inr (h\<lparr>registers := (registers h)[j := max (registers h ! j) (HyperLogLog_rho w)]\<rparr>)
           \<and> int j = uint (mmh3_hash (py_str item) 0xDEADBEEF) AND (m_hll h - 1)
           \<and> w = drop_bit (nat (p_hll h)) (uint (mmh3_hash (py_str item) 0xDEADBEEF))"
proof -
  let ?x = "uint (mmh3_hash (py_str item) 0xDEADBEEF)"
  let ?j = "?x AND (m_hll h - 1)"
  from assms have p: "0 \<le> p_hll h" and m: "0 < m_hll h"
    and len: "int (length (registers h)) = m_hll h"
    by (simp_all add: hll_ok_def)
  have r: "py_rshift ?x (p_hll h) = Inr (drop_bit (nat (p_hll h)) ?x)"
    using p by (simp add: py_rshift_def)
  have j: "0 \<le> ?j" "?j < m_hll h"
    using register_index_range [OF m] by blast+
  then have i: "py_index (length (registers h)) ?j = Inr (nat ?j)"
    using len by (simp add: py_index_def)
  have lt: "nat ?j < length (registers h)"
    using j len by linarith
  have "HyperLogLog_add h item
      = Inr (h\<lparr>registers := (registers h)[nat ?j := max (registers h ! nat ?j)
               (HyperLogLog_rho (drop_bit (nat (p_hll h)) ?x))]\<rparr>)"
    by (simp add: HyperLogLog_add_def Let_def encode_utf8_def r i py_getitem_def py_setitem_def)
  with lt j show ?thesis by (intro exI [of _ "nat ?j"]) simp
qed

lemma add_hll_extends:
  assumes "hll_ok h"
  shows "\<exists>h'. HyperLogLog_add h item = Inr h' \<and> hll_extends h h'"
proof -
  from add_hll_result [OF assms, of item] obtain j w where
    j: "j < length (registers h)" and
    a: "HyperLogLog_add h item
          = Inr (h\<lparr>registers := (registers h)[j := max (registers h ! j) (HyperLogLog_rho w)]\<rparr>)"
    by blast
  have "hll_extends h (h\<lparr>registers := (registers h)[j := max (registers h ! j) (HyperLogLog_rho w)]\<rparr>)"
    using j by (simp add: hll_extends_def nth_list_update)
  with a show ?thesis by blast
qed

lemma sum_powi_pos:
  "regs \<noteq> [] \<Longrightarrow> 0 < sum_list (map (\<lambda>r. (2::real) powi (- r)) regs)"
proof (induction regs)
  case Nil
  then show ?case by simp
next
  case (Cons r regs)
  have "0 \<le> sum_list (map (\<lambda>r. (2::real) powi (- r)) regs)"
    by (intro sum_list_nonneg) auto
  moreover have "0 < (2::real) powi (- r)" by (rule zero_less_power_int) simp
  ultimately show ?case by (simp add: add_pos_nonneg)
qed

lemma count_total:
  assumes "hll_ok h"
  shows "\<exists>c. HyperLogLog_count h = Inr c"
proof -
  from assms have m: "0 < m_hll h" and len: "length (registers h) = nat (m_hll h)"
    by (simp_all add: hll_ok_def)
  then have "registers h \<noteq> []" by auto
  then have Z: "0 < sum_list (map (\<lambda>r. (2::real) powi (- r)) (registers h))"
    by (rule sum_powi_pos)
  have "\<not> real_of_int (m_hll h) / real V \<le> 0" if "0 < V" for V
    using m that by (simp add: not_le)
  then show ?thesis
    using Z by (auto simp: HyperLogLog_count_def Let_def math_log_def)
qed

lemma hll_step_extends:
  assumes "hll_ok h"
  shows "\<exists>h'. hll_step h op = Inr h' \<and> hll_extends h h'"
proof (cases op)
  case (Op_hll_add item)
  then show ?thesis using add_hll_extends [OF assms] by simp
next
  case Op_hll_count
  then show ?thesis using count_total [OF assms] by (auto simp: hll_extends_refl)
qed

lemma hll_run_extends:
  "hll_ok h \<Longrightarrow> \<exists>h'. hll_run h ops = Inr h' \<and> hll_extends h h'"
proof (induction ops arbitrary: h)
  case Nil
  then show ?case by (simp add: hll_extends_refl)
next
  case (Cons op ops)
  from hll_step_extends [OF Cons.prems] obtain h1
    where h1: "hll_step h op = Inr h1" "hll_extends h h1" by blast
  have "hll_ok h1" using Cons.prems h1(2) by (rule hll_extends_ok)
  from Cons.IH [OF this] obtain h2 where h2: "hll_run h1 ops = Inr h2" "hll_extends h1 h2"
    by blast
  show ?case using h1 h2 by (auto intro: hll_extends_trans)
qed

lemma sum_list_powr:
  "sum_list (map (\<lambda>r. (2::real) powi (- r)) regs)
     = (\<Sum>i < length regs. 2 powr (- real_of_int (regs ! i)))"
proof -
  have "sum_list (map (\<lambda>r. (2::real) powi (- r)) regs)
      = (\<Sum>i = 0..<length regs. (2::real) powi (- (regs ! i)))"
    by (simp add: sum_list_sum_nth)
  also have "\<dots> = (\<Sum>i < length regs. 2 powr (- real_of_int (regs ! i)))"
    by (intro sum.cong) (auto simp: powr_real_of_int' simp flip: of_int_minus)
  finally show ?thesis .
qed

lemma count_zero_registers: "count_list regs (0::int) = length (filter (\<lambda>r. r = 0) regs)"
  by (induction regs) simp_all

lemma count_refines:
  assumes "hll_ok h"
  shows "HyperLogLog_count h = Inr (count_spec h)"
proof -
  from assms have p: "0 \<le> p_hll h" and m: "m_hll h = 2 ^ nat (p_hll h)"
    and len: "length (registers h) = nat (m_hll h)"
    and src: "small_range_correction h = 5 * real_of_int (m_hll h) / 2"
    by (simp_all add: hll_ok_def)
  have len2: "length (registers h) = 2 ^ nat (p_hll h)"
    using len m by (simp add: nat_power_eq)
  have mr: "real_of_int (m_hll h) = 2 ^ nat (p_hll h)" using m by simp
  have "registers h \<noteq> []" using len2 by auto
  then have Z: "0 < sum_list (map (\<lambda>r. (2::real) powi (- r)) (registers h))"
    by (rule sum_powi_pos)
  have Zeq: "sum_list (map (\<lambda>r. (2::real) powi (- r)) (registers h))
      = (\<Sum>i < (2::nat) ^ nat (p_hll h). 2 powr (- real_of_int (registers h ! i)))"
    by (simp add: sum_list_powr len2)
  define Z where "Z = sum_list (map (\<lambda>r. (2::real) powi (- r)) (registers h))"
  define E where "E = alpha h * real_of_int (m_hll h) * real_of_int (m_hll h) / Z"
  define V where "V = length (filter (\<lambda>r. r = 0) (registers h))"
  have log: "math_log (real_of_int (m_hll h) / real V) = Inr (ln (real_of_int (m_hll h) / real V))"
    if "0 < V"
    using that by (simp add: math_log_def mr not_le)
  have code: "HyperLogLog_count h
      = (if E \<le> small_range_correction h \<and> 0 < V
         then Inr (real_of_int (m_hll h) * ln (real_of_int (m_hll h) / real V)) else Inr E)"
  proof (cases "0 < V")
    case True
    with log Z show ?thesis
      by (simp add: HyperLogLog_count_def Let_def count_zero_registers Z_def E_def V_def)
  next
    case False
    with Z show ?thesis
      by (simp add: HyperLogLog_count_def Let_def count_zero_registers Z_def E_def V_def)
  qed
  have spec: "count_spec h
      = (if E \<le> 2.5 * real_of_int (m_hll h) \<and> 0 < V
         then real_of_int (m_hll h) * ln (real_of_int (m_hll h) / real V) else E)"
    unfolding count_spec_def Let_def Zeq [symmetric]
    by (simp add: Z_def E_def V_def mr power2_eq_square)
  have "small_range_correction h = 2.5 * real_of_int (m_hll h)"
    using src by simp
  with code spec show ?thesis by simp
qed

section \<open>Construction\<close>

lemma positive_integer_iff: "positive_integer v = (isinstance_int v \<and> 0 < int_val v)"
  by (cases v) (simp_all add: positive_integer_def)

text \<open>
  C3, as stated, fails for the estimator: \<open>HyperLogLog(p=0)\<close> raises nothing and
  yields an instance with a single register.
\<close>

theorem HyperLogLog_accepts_zero_precision:
  "HyperLogLog_init (PyInt 0)
     = Inr \<lparr>p_hll = 0, m_hll = 1, registers = [0], alpha = 0.7213 / 2.079,
             small_range_correction = 5 / 2\<rparr>"
  by (simp add: HyperLogLog_init_def py_list_repeat_zero_def HyperLogLog_get_alpha_def)

text \<open>
  C3, amended. \<open>BloomFilter(size, num_hashes)\<close> raises \<open>ValueError\<close> whenever one of the
  two arguments is not a positive integer, and no instance results then; with the
  arguments 1000 and 3 it constructs. \<open>HyperLogLog(p)\<close> raises \<open>TypeError\<close> when \<open>p\<close> is
  not an integer and \<open>ValueError\<close> when \<open>p\<close> is a negative integer, but for \<open>p = 0\<close>, which
  is not a positive integer, it raises nothing and constructs an estimator with one
  register.
\<close>

theorem construction_checks:
  "(\<not> positive_integer M \<or> \<not> positive_integer K \<longrightarrow> BloomFilter_init M K = Inl ValueError) \<and>
   BloomFilter_init (PyInt 1000) (PyInt 3)
     = Inr \<lparr>size_bf = 1000, num_hashes = 3, bit_array = replicate 1000 0\<rparr> \<and>
   (\<not> isinstance_int p \<longrightarrow> HyperLogLog_init p = Inl TypeError) \<and>
   (isinstance_int p \<and> int_val p < 0 \<longrightarrow> HyperLogLog_init p = Inl ValueError) \<and>
   (isinstance_int p \<and> int_val p = 0 \<longrightarrow>
      HyperLogLog_init p
        = Inr \<lparr>p_hll = 0, m_hll = 1, registers = [0], alpha = 0.7213 / 2.079,
                small_range_correction = 5 / 2\<rparr>)"
proof -
  have 1: "\<not> positive_integer M \<or> \<not> positive_integer K \<longrightarrow> BloomFilter_init M K = Inl ValueError"
    by (auto simp: positive_integer_iff BloomFilter_init_def)
  have 2: "BloomFilter_init (PyInt 1000) (PyInt 3)
     = Inr \<lparr>size_bf = 1000, num_hashes = 3, bit_array = replicate 1000 0\<rparr>"
    by (simp add: BloomFilter_init_def py_list_repeat_zero_def)
  have 3: "\<not> isinstance_int p \<longrightarrow> HyperLogLog_init p = Inl TypeError"
    by (simp add: HyperLogLog_init_def)
  have 4: "isinstance_int p \<and> int_val p < 0 \<longrightarrow> HyperLogLog_init p = Inl ValueError"
    by (simp add: HyperLogLog_init_def)
  have 5: "isinstance_int p \<and> int_val p = 0 \<longrightarrow>
      HyperLogLog_init p
        = Inr \<lparr>p_hll = 0, m_hll = 1, registers = [0], alpha = 0.7213 / 2.079,
                small_range_correction = 5 / 2\<rparr>"
    by (simp add: HyperLogLog_init_def py_list_repeat_zero_def HyperLogLog_get_alpha_def)
  from 1 2 3 4 5 show ?thesis by (intro conjI)
qed

theorem construction_checks_witness:
  "BloomFilter_init (PyInt 0) (PyInt 3) = Inl ValueError \<and>
   BloomFilter_init (PyInt 1000) (PyStr ''3'') = Inl ValueError \<and>
   BloomFilter_init (PyInt 1000) (PyInt (- 3)) = Inl ValueError \<and>
   HyperLogLog_init PyNone = Inl TypeError \<and>
   HyperLogLog_init (PyInt (- 1)) = Inl ValueError \<and>
   HyperLogLog_init (PyBool False)
     = Inr \<lparr>p_hll = 0, m_hll = 1, registers = [0], alpha = 0.7213 / 2.079,
             small_range_correction = 5 / 2\<rparr>"
  using construction_checks [of "PyInt 0" "PyInt 3" PyNone]
    construction_checks [of "PyInt 1000" "PyStr ''3''" "PyInt (- 1)"]
    construction_checks [of "PyInt 1000" "PyInt (- 3)" "PyBool False"]
  by (simp add: positive_integer_def)

section \<open>The empty estimator\<close>

lemma get_alpha_le: "0 < m \<Longrightarrow> HyperLogLog_get_alpha m \<le> 5 / 2"
proof -
  assume m: "0 < m"
  have "0 \<le> 1.079 / real_of_int m" using m by simp
  then have d: "1 \<le> 1 + 1.079 / real_of_int m" by linarith
  have "0.7213 / (1 + 1.079 / real_of_int m) \<le> 0.7213 / 1"
    by (rule frac_le) (use d in simp_all)
  then have "0.7213 / (1 + 1.079 / real_of_int m) \<le> 5 / 2" by (rule order_trans) simp
  then show ?thesis unfolding HyperLogLog_get_alpha_def by simp
qed

lemma sum_list_replicate_zero:
  "sum_list (map (\<lambda>r. (2::real) powi (- r)) (replicate n 0)) = real n"
  by (induction n) simp_all

lemma count_list_replicate: "count_list (replicate n x) x = n"
  by (induction n) simp_all

text \<open>
  C7. A freshly constructed \<open>HyperLogLog(p)\<close> has \<open>2 ^ p\<close> registers, all 0, and
  \<open>count()\<close> on it raises nothing and returns 0: the raw estimate \<open>alpha * m\<close> is
  below the threshold and all \<open>m\<close> registers are zero, so the result is
  \<open>m * ln (m / m)\<close>.
\<close>

theorem fresh_estimator_counts_zero:
  assumes "HyperLogLog_init p = Inr h"
  shows "registers h = replicate (2 ^ nat (int_val p)) 0 \<and> HyperLogLog_count h = Inr 0"
proof -
  define n :: nat where "n = 2 ^ nat (int_val p)"
  have n: "0 < n" by (simp add: n_def)
  from assms have h: "h = \<lparr>p_hll = int_val p, m_hll = int n, registers = replicate n 0,
      alpha = HyperLogLog_get_alpha (int n), small_range_correction = 5 * real n / 2\<rparr>"
    by (auto simp: HyperLogLog_init_def py_list_repeat_zero_def Let_def push_bit_eq_mult n_def
        nat_power_eq split: if_splits sum.splits)
  have Z: "sum_list (map (\<lambda>r. (2::real) powi (- r)) (registers h)) = real n"
    by (simp only: h HyperLogLog.simps sum_list_replicate_zero)
  have V: "count_list (registers h) 0 = n"
    by (simp only: h HyperLogLog.simps count_list_replicate)
  have "HyperLogLog_get_alpha (int n) * real n \<le> 5 / 2 * real n"
    using get_alpha_le [of "int n"] n by (intro mult_right_mono) simp_all
  then have E: "alpha h * real_of_int (m_hll h) * real_of_int (m_hll h) / real n
      \<le> small_range_correction h"
    using n by (simp add: h)
  have l: "math_log (real_of_int (m_hll h) / real n) = Inr 0"
    using n by (simp add: h math_log_def)
  have "HyperLogLog_count h = Inr 0"
    unfolding HyperLogLog_count_def Let_def Z V using n E l by simp
  then show ?thesis by (simp add: h n_def)
qed

theorem fresh_estimator_counts_zero_witness:
  "HyperLogLog_init (PyInt 14)
     = Inr \<lparr>p_hll = 14, m_hll = 16384, registers = replicate 16384 0,
             alpha = 0.7213 / (1 + 1.079 / 16384), small_range_correction = 40960\<rparr> \<and>
   HyperLogLog_count \<lparr>p_hll = 14, m_hll = 16384, registers = replicate 16384 0,
             alpha = 0.7213 / (1 + 1.079 / 16384), small_range_correction = 40960\<rparr> = Inr 0"
proof -
  have i: "HyperLogLog_init (PyInt 14)
     = Inr \<lparr>p_hll = 14, m_hll = 16384, registers = replicate 16384 0,
             alpha = 0.7213 / (1 + 1.079 / 16384), small_range_correction = 40960\<rparr>"
    by (simp add: HyperLogLog_init_def py_list_repeat_zero_def HyperLogLog_get_alpha_def)
  from fresh_estimator_counts_zero [OF i] i show ?thesis by simp
qed

section \<open>Evaluations at concrete inputs\<close>

text \<open>Published test vectors of MurmurHash3 (x86, 32 bit), as a check of the model.\<close>

lemma mmh3_test_vectors:
  "mmh3_hash [] 0 = 0"
  "mmh3_hash [] 1 = 0x514E28B7"
  "mmh3_hash ''test'' 0 = 0xBA6BD213"
  "mmh3_hash ''foo'' 0 = 0xF6A5C420"
  "mmh3_hash ''aa'' 0x9747B28C = 0x5D211726"
  "mmh3_hash ''Hello, world!'' 0x9747B28C = 0x24884CBA"
  "mmh3_hash ''The quick brown fox jumps over the lazy dog'' 0x9747B28C = 0x2FA826CD"
  by (simp_all add: mmh3_hash_def fmix32_def mix_k_def rotl32_def byte_def)

lemma hash_a_0: "uint (mmh3_hash ''a'' 0) = 1009084850"
  by (simp add: mmh3_hash_def fmix32_def mix_k_def rotl32_def byte_def)

lemma hash_a_1: "uint (mmh3_hash ''a'' 1) = 1485495528"
  by (simp add: mmh3_hash_def fmix32_def mix_k_def rotl32_def byte_def)

lemma hash_a_fixed_seed: "uint (mmh3_hash ''a'' 0xDEADBEEF) = 2289228744"
  by (simp add: mmh3_hash_def fmix32_def mix_k_def rotl32_def byte_def)

lemma rho_of_a: "HyperLogLog_rho 143076796 = 5"
  by (simp add: HyperLogLog_rho_def bit_length_def bit_length_nat.simps)

lemma add_a_bloom:
  "BloomFilter_add \<lparr>size_bf = 8, num_hashes = 2, bit_array = [0, 0, 0, 0, 0, 0, 0, 0]\<rparr> (PyStr ''a'')
     = Inr \<lparr>size_bf = 8, num_hashes = 2, bit_array = [1, 0, 1, 0, 0, 0, 0, 0]\<rparr>"
proof -
  have r: "py_range 2 = [0, 1]"
    by (simp add: py_range_def upt_rec)
  have i0: "py_mod 1009084850 8 = Inr 2" and i1: "py_mod 1485495528 8 = Inr 0"
    by (simp_all add: py_mod_def)
  show ?thesis
    by (simp add: BloomFilter_add_def encode_utf8_def r hash_a_0 hash_a_1 i0 i1
        py_setitem_def py_index_def)
qed

lemma add_a_hll:
  "HyperLogLog_add \<lparr>p_hll = 4, m_hll = 16, registers = replicate 16 0, alpha = 0.673,
       small_range_correction = 40\<rparr> (PyStr ''a'')
     = Inr \<lparr>p_hll = 4, m_hll = 16, registers = (replicate 16 0)[8 := 5], alpha = 0.673,
             small_range_correction = 40\<rparr>"
proof -
  have r: "py_rshift 2289228744 4 = Inr 143076796"
    by (simp add: py_rshift_def drop_bit_eq_div)
  have g: "py_getitem (replicate 16 (0::int)) 8 = Inr 0"
    by (simp add: py_getitem_def py_index_def)
  have s: "py_setitem (replicate 16 (0::int)) 8 5 = Inr ((replicate 16 0)[8 := 5])"
    by (simp add: py_setitem_def py_index_def)
  show ?thesis
    unfolding HyperLogLog_add_def Let_def encode_utf8_def py_str.simps hash_a_fixed_seed
    by (simp add: r g s rho_of_a)
qed

lemma init_4:
  "HyperLogLog_init (PyInt 4)
     = Inr \<lparr>p_hll = 4, m_hll = 16, registers = replicate 16 0, alpha = 0.673,
             small_range_correction = 40\<rparr>"
  by (simp add: HyperLogLog_init_def py_list_repeat_zero_def HyperLogLog_get_alpha_def)

lemma count_after_a:
  "HyperLogLog_count \<lparr>p_hll = 4, m_hll = 16, registers = (replicate 16 0)[8 := 5], alpha = 0.673,
       small_range_correction = 40\<rparr> = Inr (16 * ln (16 / 15))"
proof -
  have regs: "(replicate 16 (0::int))[8 := 5] = [0,0,0,0,0,0,0,0,5,0,0,0,0,0,0,0]"
    by (simp add: eval_nat_numeral)
  have Z: "sum_list (map (\<lambda>r. (2::real) powi (- r)) [0,0,0,0,0,0,0,0,5,0,0,0,0,0,0,0]) = 481 / 32"
    by (simp add: power_int_def power_divide)
  have V: "count_list [0,0,0,0,0,0,0,0,5,0,0,0,0,0,0,0::int] 0 = 15"
    by simp
  show ?thesis
    unfolding HyperLogLog_count_def Let_def regs HyperLogLog.simps Z V
    by (simp add: math_log_def)
qed

section \<open>The estimate\<close>

text \<open>
  C2. In every state that a constructed estimator reaches, \<open>count()\<close> raises nothing
  and returns what the formula of the claim gives: with \<open>Z\<close> the sum of
  \<open>2 ^ (- register)\<close> over the \<open>m = 2 ^ p\<close> registers and \<open>E = alpha * m\<^sup>2 / Z\<close>, it is
  \<open>m * ln (m / V)\<close> when \<open>E \<le> 2.5 * m\<close> and the number \<open>V\<close> of zero registers is
  positive, and \<open>E\<close> in every other case; there is no further correction.
  Floats are read as reals.
\<close>

theorem count_formula:
  assumes "HyperLogLog_init p = Inr h0" and "hll_run h0 ops = Inr h"
  shows "HyperLogLog_count h = Inr (count_spec h)"
proof -
  have "hll_ok h0" using assms(1) by (rule init_hll_ok)
  from hll_run_extends [OF this, of ops] assms(2) have "hll_ok h"
    using \<open>hll_ok h0\<close> by (auto intro: hll_extends_ok)
  then show ?thesis by (rule count_refines)
qed

theorem count_formula_witness:
  "HyperLogLog_init (PyInt 4)
     = Inr \<lparr>p_hll = 4, m_hll = 16, registers = replicate 16 0, alpha = 0.673,
             small_range_correction = 40\<rparr> \<and>
   hll_run \<lparr>p_hll = 4, m_hll = 16, registers = replicate 16 0, alpha = 0.673,
             small_range_correction = 40\<rparr> [Op_hll_add (PyStr ''a'')]
     = Inr \<lparr>p_hll = 4, m_hll = 16, registers = (replicate 16 0)[8 := 5], alpha = 0.673,
             small_range_correction = 40\<rparr> \<and>
   count_spec \<lparr>p_hll = 4, m_hll = 16, registers = (replicate 16 0)[8 := 5], alpha = 0.673,
             small_range_correction = 40\<rparr> = 16 * ln (16 / 15)"
proof -
  have r: "hll_run \<lparr>p_hll = 4, m_hll = 16, registers = replicate 16 0, alpha = 0.673,
             small_range_correction = 40\<rparr> [Op_hll_add (PyStr ''a'')]
     = Inr \<lparr>p_hll = 4, m_hll = 16, registers = (replicate 16 0)[8 := 5], alpha = 0.673,
             small_range_correction = 40\<rparr>"
    by (simp only: hll_run.simps hll_step.simps add_a_hll sum.case)
  from count_formula [OF init_4 r] count_after_a init_4 r show ?thesis by simp
qed

section \<open>No false negatives\<close>

text \<open>
  C4. In every state that a constructed filter reaches, adding a non-empty string
  \<open>s\<close> succeeds, \<open>contains(s)\<close> is \<open>True\<close> right after it, and it is still \<open>True\<close>
  after any further sequence of operations, which all succeed.
\<close>

theorem no_false_negatives:
  assumes "BloomFilter_init M K = Inr bf0" and "bloom_run bf0 earlier = Inr bf" and "s \<noteq> []"
  shows "\<exists>bf1 bf2. BloomFilter_add bf (PyStr s) = Inr bf1 \<and>
           BloomFilter_contains bf1 (PyStr s) = Inr True \<and>
           bloom_run bf1 later = Inr bf2 \<and>
           BloomFilter_contains bf2 (PyStr s) = Inr True"
proof -
  have ok0: "bf_ok bf0" using assms(1) by (rule init_bf_ok)
  have ok: "bf_ok bf"
    using bloom_run_extends [OF ok0, of earlier] assms(2) by (auto intro: bf_extends_ok [OF ok0])
  from add_extends [OF ok] obtain bf1
    where a: "BloomFilter_add bf (PyStr s) = Inr bf1" and e1: "bf_extends bf bf1" by blast
  have ok1: "bf_ok bf1" using ok e1 by (rule bf_extends_ok)
  from bloom_run_extends [OF ok1] obtain bf2
    where r: "bloom_run bf1 later = Inr bf2" and e2: "bf_extends bf1 bf2" by blast
  have "BloomFilter_contains bf1 (PyStr s) = Inr True"
    using ok assms(3) a bf_extends_refl by (rule contains_after_add)
  moreover have "BloomFilter_contains bf2 (PyStr s) = Inr True"
    using ok assms(3) a e2 by (rule contains_after_add)
  ultimately show ?thesis using a r by blast
qed

lemma init_8_2:
  "BloomFilter_init (PyInt 8) (PyInt 2)
     = Inr \<lparr>size_bf = 8, num_hashes = 2, bit_array = [0, 0, 0, 0, 0, 0, 0, 0]\<rparr>"
  by (simp add: BloomFilter_init_def py_list_repeat_zero_def eval_nat_numeral)

theorem no_false_negatives_witness:
  "BloomFilter_init (PyInt 8) (PyInt 2)
     = Inr \<lparr>size_bf = 8, num_hashes = 2, bit_array = [0, 0, 0, 0, 0, 0, 0, 0]\<rparr> \<and>
   BloomFilter_add \<lparr>size_bf = 8, num_hashes = 2, bit_array = [0, 0, 0, 0, 0, 0, 0, 0]\<rparr> (PyStr ''a'')
     = Inr \<lparr>size_bf = 8, num_hashes = 2, bit_array = [1, 0, 1, 0, 0, 0, 0, 0]\<rparr> \<and>
   BloomFilter_contains \<lparr>size_bf = 8, num_hashes = 2, bit_array = [1, 0, 1, 0, 0, 0, 0, 0]\<rparr>
     (PyStr ''a'') = Inr True \<and>
   (\<exists>bf2. bloom_run \<lparr>size_bf = 8, num_hashes = 2, bit_array = [1, 0, 1, 0, 0, 0, 0, 0]\<rparr>
            [Op_add (PyStr ''b''), Op_contains PyNone, Op_add (PyStr ''c'')] = Inr bf2 \<and>
          BloomFilter_contains bf2 (PyStr ''a'') = Inr True)"
proof -
  have r: "bloom_run \<lparr>size_bf = 8, num_hashes = 2, bit_array = [0, 0, 0, 0, 0, 0, 0, 0]\<rparr> []
      = Inr \<lparr>size_bf = 8, num_hashes = 2, bit_array = [0, 0, 0, 0, 0, 0, 0, 0]\<rparr>"
    by simp
  have s: "''a'' \<noteq> []" by simp
  from no_false_negatives [OF init_8_2 r s,
      of "[Op_add (PyStr ''b''), Op_contains PyNone, Op_add (PyStr ''c'')]"]
  show ?thesis
    unfolding add_a_bloom using init_8_2 by simp
qed

section \<open>Monotone state\<close>

text \<open>
  C5. Between any two states in the life of a constructed filter the bit array keeps
  its length, no bit decreases, and a bit that is 1 stays 1; between any two states
  in the life of a constructed estimator the register array keeps its length and no
  register decreases.
\<close>

theorem state_monotone:
  "(BloomFilter_init M K = Inr bf0 \<and> bloom_run bf0 earlier = Inr bf \<and> bloom_run bf later = Inr bf'
      \<longrightarrow> length (bit_array bf') = length (bit_array bf) \<and>
          (\<forall>k < length (bit_array bf).
             bit_array bf ! k \<le> bit_array bf' ! k \<and>
             (bit_array bf ! k = 1 \<longrightarrow> bit_array bf' ! k = 1))) \<and>
   (HyperLogLog_init p = Inr h0 \<and> hll_run h0 hearlier = Inr h \<and> hll_run h hlater = Inr h'
      \<longrightarrow> length (registers h') = length (registers h) \<and>
          (\<forall>k < length (registers h). registers h ! k \<le> registers h' ! k))"
proof (intro conjI impI)
  assume a: "BloomFilter_init M K = Inr bf0 \<and> bloom_run bf0 earlier = Inr bf \<and>
    bloom_run bf later = Inr bf'"
  then have ok0: "bf_ok bf0" by (auto intro: init_bf_ok)
  from a have z: "set (bit_array bf0) \<subseteq> {0}"
    by (auto simp: BloomFilter_init_def py_list_repeat_zero_def split: if_splits sum.splits)
  from bloom_run_extends [OF ok0, of earlier] a have e1: "bf_extends bf0 bf" by auto
  then have ok: "bf_ok bf" using ok0 by (auto intro: bf_extends_ok)
  from bloom_run_extends [OF ok, of later] a have e2: "bf_extends bf bf'" by auto
  have b1: "set (bit_array bf) \<subseteq> {0, 1}"
    using e1 z unfolding bf_extends_def by auto
  have b2: "set (bit_array bf') \<subseteq> {0, 1}"
    using e2 b1 unfolding bf_extends_def by auto
  show "length (bit_array bf') = length (bit_array bf)"
    using e2 by (simp add: bf_extends_def)
  show "\<forall>k < length (bit_array bf).
      bit_array bf ! k \<le> bit_array bf' ! k \<and> (bit_array bf ! k = 1 \<longrightarrow> bit_array bf' ! k = 1)"
  proof (intro allI impI)
    fix k assume k: "k < length (bit_array bf)"
    then have k': "k < length (bit_array bf')" using e2 by (simp add: bf_extends_def)
    have keep: "bit_array bf ! k = 1 \<longrightarrow> bit_array bf' ! k = 1"
      using e2 k by (simp add: bf_extends_def)
    have "bit_array bf ! k \<in> {0, 1}" using b1 k by (meson nth_mem subsetD)
    moreover have "bit_array bf' ! k \<in> {0, 1}" using b2 k' by (meson nth_mem subsetD)
    ultimately show "bit_array bf ! k \<le> bit_array bf' ! k \<and>
        (bit_array bf ! k = 1 \<longrightarrow> bit_array bf' ! k = 1)"
      using keep by auto
  qed
next
  assume a: "HyperLogLog_init p = Inr h0 \<and> hll_run h0 hearlier = Inr h \<and> hll_run h hlater = Inr h'"
  then have ok0: "hll_ok h0" by (auto intro: init_hll_ok)
  from hll_run_extends [OF ok0, of hearlier] a have "hll_extends h0 h" by auto
  then have ok: "hll_ok h" using ok0 by (auto intro: hll_extends_ok)
  from hll_run_extends [OF ok, of hlater] a have e: "hll_extends h h'" by auto
  show "length (registers h') = length (registers h)"
    using e by (simp add: hll_extends_def)
  show "\<forall>k < length (registers h). registers h ! k \<le> registers h' ! k"
    using e by (simp add: hll_extends_def)
qed

theorem state_monotone_witness:
  "bloom_run \<lparr>size_bf = 8, num_hashes = 2, bit_array = [0, 0, 0, 0, 0, 0, 0, 0]\<rparr>
       [Op_add (PyStr ''a'')]
     = Inr \<lparr>size_bf = 8, num_hashes = 2, bit_array = [1, 0, 1, 0, 0, 0, 0, 0]\<rparr> \<and>
   [0, 0, 0, 0, 0, 0, 0, 0] ! 2 \<le> [1, 0, 1, 0, 0, 0, 0, 0 :: int] ! 2 \<and>
   hll_run \<lparr>p_hll = 4, m_hll = 16, registers = replicate 16 0, alpha = 0.673,
             small_range_correction = 40\<rparr> [Op_hll_add (PyStr ''a''), Op_hll_count]
     = Inr \<lparr>p_hll = 4, m_hll = 16, registers = (replicate 16 0)[8 := 5], alpha = 0.673,
             small_range_correction = 40\<rparr> \<and>
   replicate 16 0 ! 8 \<le> (replicate 16 (0::int))[8 := 5] ! 8"
proof -
  have b0: "bloom_run \<lparr>size_bf = 8, num_hashes = 2, bit_array = [0, 0, 0, 0, 0, 0, 0, 0]\<rparr> []
      = Inr \<lparr>size_bf = 8, num_hashes = 2, bit_array = [0, 0, 0, 0, 0, 0, 0, 0]\<rparr>"
    by simp
  have b1: "bloom_run \<lparr>size_bf = 8, num_hashes = 2, bit_array = [0, 0, 0, 0, 0, 0, 0, 0]\<rparr>
       [Op_add (PyStr ''a'')]
     = Inr \<lparr>size_bf = 8, num_hashes = 2, bit_array = [1, 0, 1, 0, 0, 0, 0, 0]\<rparr>"
    by (simp only: bloom_run.simps bloom_step.simps add_a_bloom sum.case)
  have h0: "hll_run \<lparr>p_hll = 4, m_hll = 16, registers = replicate 16 0, alpha = 0.673,
             small_range_correction = 40\<rparr> []
     = Inr \<lparr>p_hll = 4, m_hll = 16, registers = replicate 16 0, alpha = 0.673,
             small_range_correction = 40\<rparr>"
    by simp
  have h1: "hll_run \<lparr>p_hll = 4, m_hll = 16, registers = replicate 16 0, alpha = 0.673,
             small_range_correction = 40\<rparr> [Op_hll_add (PyStr ''a''), Op_hll_count]
     = Inr \<lparr>p_hll = 4, m_hll = 16, registers = (replicate 16 0)[8 := 5], alpha = 0.673,
             small_range_correction = 40\<rparr>"
    by (simp only: hll_run.simps hll_step.simps add_a_hll count_after_a sum.case)
  from state_monotone [of "PyInt 8" "PyInt 2" _ "[]" _ "[Op_add (PyStr ''a'')]" _
      "PyInt 4" _ "[]" _ "[Op_hll_add (PyStr ''a''), Op_hll_count]"]
    init_8_2 b0 b1 init_4 h0 h1
  show ?thesis by simp
qed

section \<open>The batch classifier\<close>

lemma update_new_key: "k \<notin> fst ` set al \<Longrightarrow> AList.update k v al = al @ [(k, v)]"
  by (induction al) auto

lemma fold_update_distinct:
  "distinct (map fst acc @ map f items) \<Longrightarrow>
     foldl (\<lambda>r it. AList.update (f it) (g it) r) acc items
       = acc @ map (\<lambda>it. (f it, g it)) items"
proof (induction items arbitrary: acc)
  case Nil
  then show ?case by simp
next
  case (Cons it items)
  have new: "f it \<notin> fst ` set acc" using Cons.prems by auto
  have "distinct (map fst (acc @ [(f it, g it)]) @ map f items)"
    using Cons.prems by auto
  from Cons.IH [OF this] show ?case by (simp add: update_new_key [OF new])
qed

lemma fold_update_keys:
  "distinct (map fst acc) \<Longrightarrow>
     distinct (map fst (foldl (\<lambda>r it. AList.update (f it) (g it) r) acc items)) \<and>
     fst ` set (foldl (\<lambda>r it. AList.update (f it) (g it) r) acc items)
       = fst ` set acc \<union> f ` set items"
proof (induction items arbitrary: acc)
  case Nil
  then show ?case by simp
next
  case (Cons it items)
  have "distinct (map fst (AList.update (f it) (g it) acc))"
    using Cons.prems by (rule distinct_update)
  from Cons.IH [OF this] show ?case by (auto simp: dom_update)
qed

lemma fold_update_map_of:
  "map_of (foldl (\<lambda>r it. AList.update (f it) (g it) r) acc items)
     = map_of (rev (map (\<lambda>it. (f it, g it)) items) @ acc)"
proof (induction items arbitrary: acc)
  case Nil
  then show ?case by simp
next
  case (Cons it items)
  have "map_of (foldl (\<lambda>r it. AList.update (f it) (g it) r) acc (it # items))
      = map_of (rev (map (\<lambda>it. (f it, g it)) items) @ AList.update (f it) (g it) acc)"
    by (simp only: foldl_Cons Cons.IH)
  also have "\<dots> = map_of (AList.update (f it) (g it) acc) ++ map_of (rev (map (\<lambda>it. (f it, g it)) items))"
    by (rule map_of_append)
  also have "\<dots> = map_of ((f it, g it) # acc) ++ map_of (rev (map (\<lambda>it. (f it, g it)) items))"
    by (simp only: update_conv' map_of.simps fst_conv snd_conv)
  also have "\<dots> = map_of (rev (map (\<lambda>it. (f it, g it)) items) @ (f it, g it) # acc)"
    by (rule map_of_append [symmetric])
  finally show ?case by simp
qed

lemma run_ok:
  "BloomFilter_init M K = Inr bf0 \<Longrightarrow> bloom_run bf0 ops = Inr bf \<Longrightarrow> bf_ok bf"
proof -
  assume a: "BloomFilter_init M K = Inr bf0" and r: "bloom_run bf0 ops = Inr bf"
  have ok0: "bf_ok bf0" using a by (rule init_bf_ok)
  from bloom_run_extends [OF ok0, of ops] r have "bf_extends bf0 bf" by auto
  with ok0 show "bf_ok bf" by (rule bf_extends_ok)
qed

text \<open>
  C8, amended. The classifier returns a \<open>dict\<close> keyed by \<open>str(item)\<close>. When the
  \<open>str()\<close> forms of the items are pairwise distinct, it holds exactly one entry per
  item, in input order: the invalid status for an item that is \<open>None\<close>, empty or not
  a string, the already-used status when \<open>contains(item)\<close> is \<open>True\<close>, the unique
  status when it is \<open>False\<close>.
\<close>

theorem classifier_one_status_per_item:
  assumes "BloomFilter_init M K = Inr bf0" and "bloom_run bf0 ops = Inr bf"
    and "distinct (map py_str items)"
  shows "check_password_uniqueness bf items = Inr (classify bf items)"
proof -
  have ok: "bf_ok bf" using assms(1,2) by (rule run_ok)
  have "distinct (map fst ([] :: (string \<times> status) list) @ map py_str items)"
    using assms(3) by simp
  from fold_update_distinct [OF this, of "status_of bf"] show ?thesis
    by (simp add: check_password_uniqueness_def check_loop_fold [OF ok] classify_def)
qed

text \<open>
  C10. The classifier returns a \<open>dict\<close> keyed by \<open>str(item)\<close>: its keys are the
  \<open>str()\<close> forms of the items, each once, each holding the status computed last for
  that key, so it never has more entries than the input has items and can have
  fewer. \<open>None\<close> is filed under \<open>"None"\<close>, where it collides with the password
  \<open>"None"\<close>, whichever comes last deciding the status; a repeated item gives one
  entry.
\<close>

theorem classifier_keyed_by_str:
  assumes "BloomFilter_init M K = Inr bf0" and "bloom_run bf0 ops = Inr bf"
  shows "(\<exists>res. check_password_uniqueness bf items = Inr res \<and>
            distinct (map fst res) \<and>
            fst ` set res = py_str ` set items \<and>
            map_of res = map_of (rev (classify bf items)) \<and>
            length res \<le> length items) \<and>
         check_password_uniqueness bf [PyNone] = Inr [(''None'', Invalid_or_empty)] \<and>
         check_password_uniqueness bf [PyNone, PyStr ''None'']
           = Inr [(''None'', status_of bf (PyStr ''None''))] \<and>
         check_password_uniqueness bf [PyStr ''None'', PyNone]
           = Inr [(''None'', Invalid_or_empty)] \<and>
         check_password_uniqueness bf [item, item] = Inr [(py_str item, status_of bf item)]"
proof -
  have ok: "bf_ok bf" using assms by (rule run_ok)
  define res where "res = foldl (\<lambda>r it. AList.update (py_str it) (status_of bf it) r) [] items"
  have c: "check_password_uniqueness bf xs
      = Inr (foldl (\<lambda>r it. AList.update (py_str it) (status_of bf it) r) [] xs)" for xs
    by (simp add: check_password_uniqueness_def check_loop_fold [OF ok])
  have k1: "distinct (map fst res)" and k2: "fst ` set res = py_str ` set items"
    using fold_update_keys [of "[]" py_str "status_of bf" items] by (simp_all add: res_def)
  have m: "map_of res = map_of (rev (classify bf items))"
    unfolding res_def classify_def fold_update_map_of by simp
  have "length res = length (map fst res)" by simp
  also have "\<dots> = card (set (map fst res))"
    using k1 by (rule distinct_card [symmetric])
  also have "\<dots> = card (py_str ` set items)"
    using k2 by simp
  also have "\<dots> \<le> card (set items)"
    by (rule card_image_le) simp
  also have "\<dots> \<le> length items" by (rule card_length)
  finally have l: "length res \<le> length items" .
  have r: "check_password_uniqueness bf items = Inr res"
    unfolding res_def by (rule c)
  have 1: "\<exists>res. check_password_uniqueness bf items = Inr res \<and>
            distinct (map fst res) \<and>
            fst ` set res = py_str ` set items \<and>
            map_of res = map_of (rev (classify bf items)) \<and>
            length res \<le> length items"
    using r k1 k2 m l by (intro exI [of _ res] conjI)
  have 2: "check_password_uniqueness bf [PyNone] = Inr [(''None'', Invalid_or_empty)]"
    unfolding c by (simp add: status_of_def)
  have 3: "check_password_uniqueness bf [PyNone, PyStr ''None'']
           = Inr [(''None'', status_of bf (PyStr ''None''))]"
    unfolding c by simp
  have 4: "check_password_uniqueness bf [PyStr ''None'', PyNone] = Inr [(''None'', Invalid_or_empty)]"
    unfolding c by (simp add: status_of_def)
  have 5: "check_password_uniqueness bf [item, item] = Inr [(py_str item, status_of bf item)]"
    unfolding c by simp
  from 1 2 3 4 5 show ?thesis by (intro conjI)
qed


lemma hash_None_0: "uint (mmh3_hash ''None'' 0) = 3069107721"
  by (simp add: mmh3_hash_def fmix32_def mix_k_def rotl32_def byte_def)

lemma hash_None_fixed_seed: "uint (mmh3_hash ''None'' 0xDEADBEEF) = 2041699386"
  by (simp add: mmh3_hash_def fmix32_def mix_k_def rotl32_def byte_def)

lemma hash_empty_fixed_seed: "uint (mmh3_hash [] 0xDEADBEEF) = 233162409"
  by (simp add: mmh3_hash_def fmix32_def mix_k_def rotl32_def byte_def)

lemma contains_a_after_a:
  "BloomFilter_contains \<lparr>size_bf = 8, num_hashes = 2, bit_array = [1, 0, 1, 0, 0, 0, 0, 0]\<rparr>
     (PyStr ''a'') = Inr True"
proof -
  have r: "py_range 2 = [0, 1]"
    by (simp add: py_range_def upt_rec)
  have i0: "py_mod 1009084850 8 = Inr 2" and i1: "py_mod 1485495528 8 = Inr 0"
    by (simp_all add: py_mod_def)
  show ?thesis
    by (simp add: BloomFilter_contains_def encode_utf8_def r hash_a_0 hash_a_1 i0 i1
        py_getitem_def py_index_def)
qed

lemma contains_None_after_a:
  "BloomFilter_contains \<lparr>size_bf = 8, num_hashes = 2, bit_array = [1, 0, 1, 0, 0, 0, 0, 0]\<rparr>
     (PyStr ''None'') = Inr False"
proof -
  have r: "py_range 2 = [0, 1]"
    by (simp add: py_range_def upt_rec)
  have i0: "py_mod 3069107721 8 = Inr 1"
    by (simp add: py_mod_def)
  show ?thesis
    by (simp add: BloomFilter_contains_def encode_utf8_def r hash_None_0 i0
        py_getitem_def py_index_def)
qed

lemma contains_None_fresh:
  "BloomFilter_contains \<lparr>size_bf = 8, num_hashes = 2, bit_array = [0, 0, 0, 0, 0, 0, 0, 0]\<rparr>
     (PyStr ''None'') = Inr False"
proof -
  have r: "py_range 2 = [0, 1]"
    by (simp add: py_range_def upt_rec)
  have i0: "py_mod 3069107721 8 = Inr 1"
    by (simp add: py_mod_def)
  show ?thesis
    by (simp add: BloomFilter_contains_def encode_utf8_def r hash_None_0 i0
        py_getitem_def py_index_def)
qed

lemma run_add_a:
  "bloom_run \<lparr>size_bf = 8, num_hashes = 2, bit_array = [0, 0, 0, 0, 0, 0, 0, 0]\<rparr>
       [Op_add (PyStr ''a'')]
     = Inr \<lparr>size_bf = 8, num_hashes = 2, bit_array = [1, 0, 1, 0, 0, 0, 0, 0]\<rparr>"
  by (simp only: bloom_run.simps bloom_step.simps add_a_bloom sum.case)

lemma str_12: "str_nat 12 = ''12''"
  by (simp add: str_nat.simps digit_char_def)

text \<open>
  C8, as stated, fails: for the items \<open>None\<close> and \<open>"None"\<close> and a fresh filter the
  result has one entry for two items, and it does not report \<open>None\<close> as invalid.
\<close>

theorem classifier_collapses_equal_keys:
  "check_password_uniqueness \<lparr>size_bf = 8, num_hashes = 2, bit_array = [0, 0, 0, 0, 0, 0, 0, 0]\<rparr>
     [PyNone, PyStr ''None''] = Inr [(''None'', Unique)]"
  by (simp add: check_password_uniqueness_def contains_None_fresh)

theorem classifier_one_status_per_item_witness:
  "BloomFilter_init (PyInt 8) (PyInt 2)
     = Inr \<lparr>size_bf = 8, num_hashes = 2, bit_array = [0, 0, 0, 0, 0, 0, 0, 0]\<rparr> \<and>
   bloom_run \<lparr>size_bf = 8, num_hashes = 2, bit_array = [0, 0, 0, 0, 0, 0, 0, 0]\<rparr>
       [Op_add (PyStr ''a'')]
     = Inr \<lparr>size_bf = 8, num_hashes = 2, bit_array = [1, 0, 1, 0, 0, 0, 0, 0]\<rparr> \<and>
   distinct (map py_str [PyStr ''a'', PyStr ''None'', PyStr [], PyInt 12]) \<and>
   check_password_uniqueness \<lparr>size_bf = 8, num_hashes = 2, bit_array = [1, 0, 1, 0, 0, 0, 0, 0]\<rparr>
       [PyStr ''a'', PyStr ''None'', PyStr [], PyInt 12]
     = Inr [(''a'', Already_used), (''None'', Unique), ([], Invalid_or_empty),
            (''12'', Invalid_or_empty)]"
proof -
  have d: "distinct (map py_str [PyStr ''a'', PyStr ''None'', PyStr [], PyInt 12])"
    by (simp add: str_12)
  from classifier_one_status_per_item [OF init_8_2 run_add_a d] init_8_2 run_add_a d
  show ?thesis
    by (simp add: classify_def status_of_def contains_a_after_a contains_None_after_a str_12)
qed

theorem classifier_keyed_by_str_witness:
  "BloomFilter_init (PyInt 8) (PyInt 2)
     = Inr \<lparr>size_bf = 8, num_hashes = 2, bit_array = [0, 0, 0, 0, 0, 0, 0, 0]\<rparr> \<and>
   bloom_run \<lparr>size_bf = 8, num_hashes = 2, bit_array = [0, 0, 0, 0, 0, 0, 0, 0]\<rparr>
       [Op_add (PyStr ''a'')]
     = Inr \<lparr>size_bf = 8, num_hashes = 2, bit_array = [1, 0, 1, 0, 0, 0, 0, 0]\<rparr> \<and>
   check_password_uniqueness \<lparr>size_bf = 8, num_hashes = 2, bit_array = [1, 0, 1, 0, 0, 0, 0, 0]\<rparr>
       [PyNone] = Inr [(''None'', Invalid_or_empty)] \<and>
   check_password_uniqueness \<lparr>size_bf = 8, num_hashes = 2, bit_array = [1, 0, 1, 0, 0, 0, 0, 0]\<rparr>
       [PyNone, PyStr ''None''] = Inr [(''None'', Unique)] \<and>
   check_password_uniqueness \<lparr>size_bf = 8, num_hashes = 2, bit_array = [1, 0, 1, 0, 0, 0, 0, 0]\<rparr>
       [PyStr ''None'', PyNone] = Inr [(''None'', Invalid_or_empty)] \<and>
   check_password_uniqueness \<lparr>size_bf = 8, num_hashes = 2, bit_array = [1, 0, 1, 0, 0, 0, 0, 0]\<rparr>
       [PyStr ''a'', PyStr ''a''] = Inr [(''a'', Already_used)]"
  using classifier_keyed_by_str [OF init_8_2 run_add_a, of "[]" "PyStr ''a''"] init_8_2 run_add_a
  by (simp add: status_of_def contains_a_after_a contains_None_after_a)

section \<open>What the estimator adds\<close>

lemma bit_length_nat_le: "n < 2 ^ k \<Longrightarrow> bit_length_nat n \<le> k"
proof (induction k arbitrary: n)
  case 0
  then show ?case by (simp add: bit_length_nat.simps)
next
  case (Suc k)
  show ?case
  proof (cases "n = 0")
    case True
    then show ?thesis by (simp add: bit_length_nat.simps)
  next
    case False
    have "n div 2 < 2 ^ k" using Suc.prems by simp
    then have "bit_length_nat (n div 2) \<le> k" by (rule Suc.IH)
    with False show ?thesis by (simp add: bit_length_nat.simps [of n])
  qed
qed

lemma bit_length_nat_pos: "0 < n \<Longrightarrow> 1 \<le> bit_length_nat n"
  by (simp add: bit_length_nat.simps [of n])

lemma rho_range:
  assumes "0 \<le> w" and "w < 2 ^ 32"
  shows "1 \<le> HyperLogLog_rho w \<and> HyperLogLog_rho w \<le> 32"
proof (cases "w = 0")
  case True
  then show ?thesis by (simp add: HyperLogLog_rho_def)
next
  case False
  with assms have n: "0 < nat \<bar>w\<bar>" "nat \<bar>w\<bar> < 2 ^ 32"
    by (simp_all add: nat_less_iff)
  have "bit_length_nat (nat \<bar>w\<bar>) \<le> 32" using n(2) by (rule bit_length_nat_le)
  moreover have "1 \<le> bit_length_nat (nat \<bar>w\<bar>)" using n(1) by (rule bit_length_nat_pos)
  ultimately show ?thesis using False by (simp add: HyperLogLog_rho_def bit_length_def)
qed

lemma shifted_hash_range:
  "0 \<le> drop_bit n (uint (x :: u32)) \<and> drop_bit n (uint x) < 2 ^ 32"
proof -
  have "uint x < 2 ^ 32" using uint_bounded [of x] by simp
  moreover have "uint x div 2 ^ n \<le> uint x div 1"
    by (rule zdiv_mono2) simp_all
  moreover have "0 \<le> uint x div 2 ^ n"
    by (rule pos_imp_zdiv_nonneg_iff [THEN iffD2]) simp_all
  ultimately show ?thesis by (simp add: drop_bit_eq_div)
qed

text \<open>
  C6, amended. \<open>HyperLogLog.add\<close> rejects nothing: every item, also \<open>None\<close>, the empty
  string and a value that is not a string, goes through \<open>str()\<close> and the hash, so
  \<open>add(item)\<close> does what \<open>add(str(item))\<close> does. In every state that a constructed
  estimator reaches it succeeds: with \<open>x\<close> the hash of \<open>str(item)\<close> under the fixed seed,
  it raises the register \<open>x & (m - 1)\<close> to the maximum of its value and the rank of
  \<open>x >> p\<close>, which lies between 1 and 32, and leaves the other registers as they are.
\<close>

theorem add_hashes_every_item:
  assumes "HyperLogLog_init p = Inr h0" and "hll_run h0 ops = Inr h"
  shows "HyperLogLog_add h item = HyperLogLog_add h (PyStr (py_str item)) \<and>
         (let x = uint (mmh3_hash (py_str item) 0xDEADBEEF);
              j = nat (x AND (m_hll h - 1));
              r = HyperLogLog_rho (drop_bit (nat (p_hll h)) x)
          in j < length (registers h) \<and> 1 \<le> r \<and> r \<le> 32 \<and>
             HyperLogLog_add h item
               = Inr (h\<lparr>registers := (registers h)[j := max (registers h ! j) r]\<rparr>))"
proof -
  have ok0: "hll_ok h0" using assms(1) by (rule init_hll_ok)
  from hll_run_extends [OF ok0, of ops] assms(2) have "hll_extends h0 h" by auto
  with ok0 have ok: "hll_ok h" by (rule hll_extends_ok)
  define x where "x = uint (mmh3_hash (py_str item) 0xDEADBEEF)"
  define r where "r = HyperLogLog_rho (drop_bit (nat (p_hll h)) x)"
  from add_hll_result [OF ok, of item] obtain j w where
    j: "j < length (registers h)" and
    a: "HyperLogLog_add h item
          = Inr (h\<lparr>registers := (registers h)[j := max (registers h ! j) (HyperLogLog_rho w)]\<rparr>)"
    and ji: "int j = x AND (m_hll h - 1)"
    and w: "w = drop_bit (nat (p_hll h)) x"
    unfolding x_def by blast
  have jn: "j = nat (x AND (m_hll h - 1))" using ji by simp
  have rw: "HyperLogLog_rho w = r" by (simp add: r_def w)
  have b: "1 \<le> r \<and> r \<le> 32"
    unfolding r_def x_def using shifted_hash_range by (intro rho_range) blast+
  have s: "HyperLogLog_add h item = HyperLogLog_add h (PyStr (py_str item))"
    by (simp add: HyperLogLog_add_def)
  have "nat (x AND (m_hll h - 1)) < length (registers h) \<and> 1 \<le> r \<and> r \<le> 32 \<and>
      HyperLogLog_add h item
        = Inr (h\<lparr>registers := (registers h)[nat (x AND (m_hll h - 1))
                  := max (registers h ! nat (x AND (m_hll h - 1))) r]\<rparr>)"
    using j a b unfolding rw jn by (intro conjI) simp_all
  with s show ?thesis unfolding Let_def x_def r_def by (intro conjI) simp_all
qed

lemma rho_of_None: "HyperLogLog_rho 127606211 = 6"
  by (simp add: HyperLogLog_rho_def bit_length_def bit_length_nat.simps)

lemma rho_of_empty: "HyperLogLog_rho 14572650 = 9"
  by (simp add: HyperLogLog_rho_def bit_length_def bit_length_nat.simps)

lemma add_None_hll:
  "HyperLogLog_add \<lparr>p_hll = 4, m_hll = 16, registers = replicate 16 0, alpha = 0.673,
       small_range_correction = 40\<rparr> PyNone
     = Inr \<lparr>p_hll = 4, m_hll = 16, registers = (replicate 16 0)[10 := 6], alpha = 0.673,
             small_range_correction = 40\<rparr>"
proof -
  have r: "py_rshift 2041699386 4 = Inr 127606211"
    by (simp add: py_rshift_def drop_bit_eq_div)
  have g: "py_getitem (replicate 16 (0::int)) 10 = Inr 0"
    by (simp add: py_getitem_def py_index_def)
  have s: "py_setitem (replicate 16 (0::int)) 10 6 = Inr ((replicate 16 0)[10 := 6])"
    by (simp add: py_setitem_def py_index_def)
  show ?thesis
    unfolding HyperLogLog_add_def Let_def encode_utf8_def py_str.simps hash_None_fixed_seed
    by (simp add: r g s rho_of_None)
qed

lemma add_empty_hll:
  "HyperLogLog_add \<lparr>p_hll = 4, m_hll = 16, registers = replicate 16 0, alpha = 0.673,
       small_range_correction = 40\<rparr> (PyStr [])
     = Inr \<lparr>p_hll = 4, m_hll = 16, registers = (replicate 16 0)[9 := 9], alpha = 0.673,
             small_range_correction = 40\<rparr>"
proof -
  have r: "py_rshift 233162409 4 = Inr 14572650"
    by (simp add: py_rshift_def drop_bit_eq_div)
  have g: "py_getitem (replicate 16 (0::int)) 9 = Inr 0"
    by (simp add: py_getitem_def py_index_def)
  have s: "py_setitem (replicate 16 (0::int)) 9 9 = Inr ((replicate 16 0)[9 := 9])"
    by (simp add: py_setitem_def py_index_def)
  show ?thesis
    unfolding HyperLogLog_add_def Let_def encode_utf8_def py_str.simps hash_empty_fixed_seed
    by (simp add: r g s rho_of_empty)
qed

text \<open>
  C6, as stated, fails: on a fresh estimator of precision 4, \<open>add(None)\<close> raises
  register 10 to 6 and \<open>add("")\<close> raises register 9 to 9.
\<close>

theorem add_processes_None_and_empty:
  "HyperLogLog_add \<lparr>p_hll = 4, m_hll = 16, registers = replicate 16 0, alpha = 0.673,
       small_range_correction = 40\<rparr> PyNone
     = Inr \<lparr>p_hll = 4, m_hll = 16, registers = (replicate 16 0)[10 := 6], alpha = 0.673,
             small_range_correction = 40\<rparr> \<and>
   HyperLogLog_add \<lparr>p_hll = 4, m_hll = 16, registers = replicate 16 0, alpha = 0.673,
       small_range_correction = 40\<rparr> (PyStr [])
     = Inr \<lparr>p_hll = 4, m_hll = 16, registers = (replicate 16 0)[9 := 9], alpha = 0.673,
             small_range_correction = 40\<rparr> \<and>
   (replicate 16 0)[10 := 6] \<noteq> replicate 16 (0::int) \<and>
   (replicate 16 0)[9 := 9] \<noteq> replicate 16 (0::int)"
proof -
  have "(replicate 16 0)[10 := 6] ! 10 \<noteq> replicate 16 (0::int) ! 10"
    by simp
  then have 1: "(replicate 16 0)[10 := 6] \<noteq> replicate 16 (0::int)" by metis
  have "(replicate 16 0)[9 := 9] ! 9 \<noteq> replicate 16 (0::int) ! 9"
    by simp
  then have 2: "(replicate 16 0)[9 := 9] \<noteq> replicate 16 (0::int)" by metis
  from add_None_hll add_empty_hll 1 2 show ?thesis by (intro conjI)
qed

theorem add_hashes_every_item_witness:
  "HyperLogLog_init (PyInt 4)
     = Inr \<lparr>p_hll = 4, m_hll = 16, registers = replicate 16 0, alpha = 0.673,
             small_range_correction = 40\<rparr> \<and>
   hll_run \<lparr>p_hll = 4, m_hll = 16, registers = replicate 16 0, alpha = 0.673,
             small_range_correction = 40\<rparr> [Op_hll_add (PyStr ''a'')]
     = Inr \<lparr>p_hll = 4, m_hll = 16, registers = (replicate 16 0)[8 := 5], alpha = 0.673,
             small_range_correction = 40\<rparr> \<and>
   HyperLogLog_add \<lparr>p_hll = 4, m_hll = 16, registers = (replicate 16 0)[8 := 5], alpha = 0.673,
             small_range_correction = 40\<rparr> PyNone
     = HyperLogLog_add \<lparr>p_hll = 4, m_hll = 16, registers = (replicate 16 0)[8 := 5],
             alpha = 0.673, small_range_correction = 40\<rparr> (PyStr ''None'') \<and>
   HyperLogLog_add \<lparr>p_hll = 4, m_hll = 16, registers = (replicate 16 0)[8 := 5], alpha = 0.673,
             small_range_correction = 40\<rparr> PyNone
     = Inr \<lparr>p_hll = 4, m_hll = 16, registers = (replicate 16 0)[8 := 5, 10 := 6],
             alpha = 0.673, small_range_correction = 40\<rparr>"
proof -
  have r: "hll_run \<lparr>p_hll = 4, m_hll = 16, registers = replicate 16 0, alpha = 0.673,
             small_range_correction = 40\<rparr> [Op_hll_add (PyStr ''a'')]
     = Inr \<lparr>p_hll = 4, m_hll = 16, registers = (replicate 16 0)[8 := 5], alpha = 0.673,
             small_range_correction = 40\<rparr>"
    by (simp only: hll_run.simps hll_step.simps add_a_hll sum.case)
  have d: "drop_bit 4 (2041699386 :: int) = 127606211"
    by (simp add: drop_bit_eq_div)
  note t = add_hashes_every_item [OF init_4 r, of PyNone]
  have t1: "HyperLogLog_add \<lparr>p_hll = 4, m_hll = 16, registers = (replicate 16 0)[8 := 5],
             alpha = 0.673, small_range_correction = 40\<rparr> PyNone
     = HyperLogLog_add \<lparr>p_hll = 4, m_hll = 16, registers = (replicate 16 0)[8 := 5],
             alpha = 0.673, small_range_correction = 40\<rparr> (PyStr ''None'')"
    using t [THEN conjunct1] by simp
  have t2: "HyperLogLog_add \<lparr>p_hll = 4, m_hll = 16, registers = (replicate 16 0)[8 := 5],
             alpha = 0.673, small_range_correction = 40\<rparr> PyNone
     = Inr \<lparr>p_hll = 4, m_hll = 16, registers = (replicate 16 0)[8 := 5, 10 := 6],
             alpha = 0.673, small_range_correction = 40\<rparr>"
    using t [THEN conjunct2] by (simp add: Let_def hash_None_fixed_seed d rho_of_None)
  from init_4 r t1 t2 show ?thesis by (intro conjI)
qed

section \<open>The rank\<close>

lemma init_14:
  "HyperLogLog_init (PyInt 14)
     = Inr \<lparr>p_hll = 14, m_hll = 16384, registers = replicate 16384 0,
             alpha = 0.7213 / (1 + 1.079 / 16384), small_range_correction = 40960\<rparr>"
  by (simp add: HyperLogLog_init_def py_list_repeat_zero_def HyperLogLog_get_alpha_def)

lemma bit_length_of_a: "bit_length 139723 = 18"
  by (simp add: bit_length_def bit_length_nat.simps)

lemma rho_of_a_14: "HyperLogLog_rho 139723 = 15"
  by (simp add: HyperLogLog_rho_def bit_length_of_a)

text \<open>
  Whatever the precision, the rank of a non-zero \<open>w\<close> exceeds the rank counted in a
  field of \<open>32 - p\<close> bits by \<open>p\<close>.
\<close>

lemma rho_offset_by_precision:
  "w \<noteq> 0 \<Longrightarrow> HyperLogLog_rho w = ((32 - p) - bit_length w + 1) + p"
  by (simp add: HyperLogLog_rho_def)

text \<open>
  C1. The claim gives the rank as \<open>(32 - p) - bitLength(w) + 1\<close>, and \<open>(32 - p) + 1\<close> for
  \<open>w = 0\<close>. The code computes \<open>32 - bitLength(w) + 1\<close>, and 32 for \<open>w = 0\<close>: it takes
  the width 32 of the hash where \<open>w\<close> has only \<open>32 - p\<close> bits. At the default precision
  14 the item \<open>"a"\<close> hashes to 2289228744, so \<open>w = 139723\<close> with 18 bits; the code writes
  the rank 15 into register 7112, where the claim's rank is 1. For \<open>w = 0\<close> the code
  gives 32, the claim 19.
\<close>

theorem rank_written_at_default_precision:
  "HyperLogLog_init (PyInt 14)
     = Inr \<lparr>p_hll = 14, m_hll = 16384, registers = replicate 16384 0,
             alpha = 0.7213 / (1 + 1.079 / 16384), small_range_correction = 40960\<rparr> \<and>
   uint (mmh3_hash (py_str (PyStr ''a'')) 0xDEADBEEF) = 2289228744 \<and>
   py_rshift 2289228744 14 = Inr 139723 \<and>
   bit_length 139723 = 18 \<and>
   HyperLogLog_rho 139723 = 15 \<and>
   (32 - 14) - bit_length 139723 + 1 = 1 \<and>
   HyperLogLog_add \<lparr>p_hll = 14, m_hll = 16384, registers = replicate 16384 0,
       alpha = 0.7213 / (1 + 1.079 / 16384), small_range_correction = 40960\<rparr> (PyStr ''a'')
     = Inr \<lparr>p_hll = 14, m_hll = 16384, registers = (replicate 16384 0)[7112 := 15],
             alpha = 0.7213 / (1 + 1.079 / 16384), small_range_correction = 40960\<rparr> \<and>
   HyperLogLog_rho 0 = 32 \<and> (32 - 14) + 1 = (19 :: int)"
proof -
  have r: "py_rshift 2289228744 14 = Inr 139723"
    by (simp add: py_rshift_def drop_bit_eq_div)
  have j: "(2289228744 :: int) AND (16384 - 1) = 7112"
    by simp
  have g: "py_getitem (replicate 16384 (0::int)) 7112 = Inr 0"
    by (simp add: py_getitem_def py_index_def)
  have s: "py_setitem (replicate 16384 (0::int)) 7112 15 = Inr ((replicate 16384 0)[7112 := 15])"
    by (simp add: py_setitem_def py_index_def)
  have a: "HyperLogLog_add \<lparr>p_hll = 14, m_hll = 16384, registers = replicate 16384 0,
       alpha = 0.7213 / (1 + 1.079 / 16384), small_range_correction = 40960\<rparr> (PyStr ''a'')
     = Inr \<lparr>p_hll = 14, m_hll = 16384, registers = (replicate 16384 0)[7112 := 15],
             alpha = 0.7213 / (1 + 1.079 / 16384), small_range_correction = 40960\<rparr>"
    unfolding HyperLogLog_add_def Let_def encode_utf8_def py_str.simps hash_a_fixed_seed
    by (simp add: r j g s rho_of_a_14)
  have z: "HyperLogLog_rho 0 = 32" by (simp add: HyperLogLog_rho_def)
  have c: "(32 - 14) - bit_length 139723 + 1 = 1" by (simp add: bit_length_of_a)
  have h: "uint (mmh3_hash (py_str (PyStr ''a'')) 0xDEADBEEF) = 2289228744"
    by (simp add: hash_a_fixed_seed)
  from init_14 h r bit_length_of_a rho_of_a_14 c a z show ?thesis by (intro conjI) simp_all
qed

end
